theory Spec2Isabelle
  imports Main "HOL-Library.Monad_Syntax" "HOL-Library.Word"
begin

unbundle bit_operations_syntax

section \<open>TETRA downlink decoder: data model\<close>

text \<open>
  The development follows the decoder of the repository: the burst synchronizer of
  \<^verbatim>\<open>decoder.cc\<close> (\<^verbatim>\<open>TetraDecoder::rxSymbol\<close>), the MAC layer (\<^verbatim>\<open>Mac::...\<close>) and the MAC
  defragmenter of \<^verbatim>\<open>mac/macdefrag.cc\<close>.
\<close>

subsection \<open>TDMA time\<close>

text \<open>
  Modelled from the spec: the struct \<^verbatim>\<open>TetraTime\<close> is declared in \<^verbatim>\<open>common/tetra.h\<close>, which
  is not among the sources. The spec gives its three counters \<^verbatim>\<open>tn\<close>, \<^verbatim>\<open>fn\<close>, \<^verbatim>\<open>mn\<close>;
  they are unsigned and are natural numbers here (no operation of the code below
  brings one near the limit of a machine integer from a value a PDU field can hold).
\<close>

record TetraTime =
  tn :: nat
  fn :: nat
  mn :: nat

text \<open>The ranges the spec declares for the TDMA time.\<close>

definition time_in_range :: "TetraTime \<Rightarrow> bool" where
  "time_in_range t =
     (1 \<le> tn t \<and> tn t \<le> 4 \<and> 1 \<le> fn t \<and> fn t \<le> 18 \<and> 1 \<le> mn t \<and> mn t \<le> 60)"

text \<open>
  \<^verbatim>\<open>Mac::incrementTn\<close>: three \<^verbatim>\<open>if\<close> statements in sequence, each reading the
  counters as the previous one left them.
\<close>

definition incrementTn :: "TetraTime \<Rightarrow> TetraTime" where
  "incrementTn t0 =
     (let t1 = t0\<lparr>tn := tn t0 + 1\<rparr>;
          t2 = (if tn t1 > 4 then t1\<lparr>fn := fn t1 + 1, tn := 1\<rparr> else t1);
          t3 = (if fn t2 > 18 then t2\<lparr>mn := mn t2 + 1, fn := 1\<rparr> else t2);
          t4 = (if mn t3 > 60 then t3\<lparr>mn := 1\<rparr> else t3)
      in t4)"

text \<open>The time the constructor \<^verbatim>\<open>Mac::Mac\<close> sets.\<close>

definition initial_time :: TetraTime where
  "initial_time = \<lparr>tn = 1, fn = 1, mn = 1\<rparr>"

subsection \<open>MAC-RESOURCE length decoding\<close>

text \<open>
  \<^verbatim>\<open>Mac::decodeLength\<close>. The argument is a \<^verbatim>\<open>uint32_t\<close> and the result an \<^verbatim>\<open>int32_t\<close>. Every
  arithmetic operation of the body is guarded by a comparison that keeps it far from
  the limits of 32 bits (\<^verbatim>\<open>val * Y2\<close> only for \<^verbatim>\<open>val <= 18\<close>, \<^verbatim>\<open>val - 18\<close> only for
  \<^verbatim>\<open>18 < val <= 58\<close>), so natural numbers compute the same values.
\<close>

definition decodeLength :: "nat \<Rightarrow> int" where
  "decodeLength val =
     (let Y2 = (1::nat); Z2 = (1::nat) in
      if val = 0 \<or> val = 59 \<or> val = 60 then 0
      else if val \<le> 18 then int (val * Y2)
      else if val \<le> 58 then int (18 * Y2 + (val - 18) * Z2)
      else if val = 61 then 0
      else if val = 62 then int val
      else if val = 63 then int val
      else 0)"

subsection \<open>PDU\<close>

text \<open>
  Modelled from the spec: the class \<^verbatim>\<open>Pdu\<close> is declared in \<^verbatim>\<open>common/pdu.h\<close>, which is not
  among the sources. The spec describes it as a bit-addressable sequence of hard bits
  (each 0 or 1) with \<^verbatim>\<open>size()\<close>, \<^verbatim>\<open>get_value(pos, n)\<close> reading \<open>n\<close> bits from \<open>pos\<close> as an
  unsigned integer, most significant bit first, and failing with \<^verbatim>\<open>OutOfRange\<close> if
  \<open>pos + n > size()\<close>, \<^verbatim>\<open>extract(pos, n)\<close> and \<^verbatim>\<open>from_offset(pdu, offset[, len])\<close> copying
  a sub-range, \<^verbatim>\<open>append(other)\<close> concatenating, and \<^verbatim>\<open>resize(n)\<close>.

  A PDU is a list of bits, \<open>True\<close> for 1. The one failure there is, \<^verbatim>\<open>OutOfRange\<close>, is the
  value \<open>None\<close> of an option type: nothing in the sources catches it, so the state a
  function had reached when it failed is not observed.
\<close>

type_synonym Pdu = "bool list"

definition bits_value :: "bool list \<Rightarrow> nat" where
  "bits_value bs = foldl (\<lambda>v b. 2 * v + (if b then 1 else 0)) 0 bs"

definition getValue :: "Pdu \<Rightarrow> nat \<Rightarrow> nat \<Rightarrow> nat option" where
  "getValue pdu pos n =
     (if pos + n > length pdu then None else Some (bits_value (take n (drop pos pdu))))"

text \<open>
  Modelled from the spec: \<^verbatim>\<open>at(i)\<close>, the read of one bit that \<^verbatim>\<open>Mac::removeFillBits\<close>
  uses, is bounds-checked like \<^verbatim>\<open>get_value\<close>: it fails unless \<open>i < size()\<close>.
\<close>

definition pdu_at :: "Pdu \<Rightarrow> nat \<Rightarrow> bool option" where
  "pdu_at pdu i = (if i < length pdu then Some (pdu ! i) else None)"

text \<open>
  Modelled from the spec: \<^verbatim>\<open>resize(n)\<close> keeps the first \<open>n\<close> bits and, as a vector does,
  pads with zeros when \<open>n\<close> exceeds the size.
\<close>

definition resize :: "Pdu \<Rightarrow> nat \<Rightarrow> Pdu" where
  "resize pdu n = take n pdu @ replicate (n - length pdu) False"

text \<open>
  Modelled from the spec: the constructors \<^verbatim>\<open>Pdu(pdu, pos)\<close> and \<^verbatim>\<open>Pdu(pdu, pos, len)\<close>
  (the spec's \<^verbatim>\<open>from_offset\<close> and \<^verbatim>\<open>extract\<close>) copy the sub-range that exists: the spec
  names no failure for them.
\<close>

definition Pdu_from :: "Pdu \<Rightarrow> nat \<Rightarrow> Pdu" where
  "Pdu_from pdu pos = drop pos pdu"

definition Pdu_sub :: "Pdu \<Rightarrow> nat \<Rightarrow> nat \<Rightarrow> Pdu" where
  "Pdu_sub pdu pos len = take len (drop pos pdu)"

text \<open>
  \<^verbatim>\<open>ret.size() - 1\<close> is computed on \<^verbatim>\<open>std::size_t\<close> (64 bits, unsigned): on an empty PDU
  it wraps around to \<open>2^64 - 1\<close>.
\<close>

definition size_minus_one :: "nat \<Rightarrow> nat" where
  "size_minus_one n = (if n = 0 then 2 ^ 64 - 1 else n - 1)"

subsection \<open>Fill bits\<close>

text \<open>
  The loop \<^verbatim>\<open>while (ret.at(ret.size() - 1) == 0) ret.resize(ret.size() - 1);\<close> of
  \<^verbatim>\<open>Mac::removeFillBits\<close>. It ends with the shortened PDU when the last bit is 1, and
  with the failure of \<^verbatim>\<open>at\<close> when the index is out of range.
\<close>

function remove_trailing_zeros :: "Pdu \<Rightarrow> Pdu option" where
  "remove_trailing_zeros ret =
     (case pdu_at ret (size_minus_one (length ret)) of
        None \<Rightarrow> None
      | Some b \<Rightarrow>
          if b = False then remove_trailing_zeros (resize ret (size_minus_one (length ret)))
          else Some ret)"
  by pat_completeness auto
termination
  by (relation "measure length")
     (auto simp: pdu_at_def size_minus_one_def resize_def split: if_splits)

declare remove_trailing_zeros.simps [simp del]

text \<open>\<^verbatim>\<open>Mac::removeFillBits\<close>; the first argument is the member \<^verbatim>\<open>m_bRemoveFillBits\<close>.\<close>

definition removeFillBits :: "bool \<Rightarrow> Pdu \<Rightarrow> Pdu option" where
  "removeFillBits bRemoveFillBits pdu =
     (if bRemoveFillBits then
        do {
          last_bit \<leftarrow> pdu_at pdu (size_minus_one (length pdu));
          if last_bit = True then Some (resize pdu (size_minus_one (length pdu)))
          else do {
            ret \<leftarrow> remove_trailing_zeros pdu;
            Some (resize ret (size_minus_one (length ret)))
          }
        }
      else Some pdu)"

subsection \<open>MAC address and MAC state\<close>

text \<open>
  Modelled from the spec: \<^verbatim>\<open>MacAddress\<close>, \<^verbatim>\<open>MacState\<close> and the enumerations of the logical
  channels and of the downlink usage are declared in \<^verbatim>\<open>common/tetra.h\<close>, which is not
  among the sources. The spec lists their fields; the comment of \<^verbatim>\<open>Mac::serviceUpperMac\<close>
  lists the logical channels.
\<close>

record MacAddress =
  addressType :: nat
  ssi :: nat
  ussi :: nat
  smi :: nat
  eventLabel :: nat
  usageMarker :: nat
  encryptionMode :: nat

datatype MacLogicalChannel =
  AACH | BLCH | BNCH | BSCH | SCH_F | SCH_HD | STCH | TCH_S | TCH | unknown_channel

datatype DownlinkUsage = UNALLOCATED | ASSIGNED_CONTROL | COMMON_CONTROL | RESERVED | TRAFFIC

record MacState =
  downlinkUsage :: DownlinkUsage
  downlinkUsageMarker :: nat
  logicalChannel :: MacLogicalChannel

subsection \<open>MAC defragmenter\<close>

text \<open>
  The class \<^verbatim>\<open>MacDefrag\<close> of \<^verbatim>\<open>mac/macdefrag.cc\<close>. The debug level only selects what is
  printed and is left out. \<^verbatim>\<open>m_fragmentsCount\<close> is a \<^verbatim>\<open>uint8_t\<close>: it wraps at 256.
\<close>

record MacDefrag =
  macAddress :: MacAddress
  startTime :: TetraTime
  m_sdu :: Pdu
  b_stopped :: bool
  m_fragmentsCount :: nat

definition defrag_start :: "MacAddress \<Rightarrow> TetraTime \<Rightarrow> MacDefrag \<Rightarrow> MacDefrag" where
  "defrag_start address timeSlot d =
     d\<lparr>macAddress := address, startTime := timeSlot, m_fragmentsCount := 0,
       m_sdu := [], b_stopped := False\<rparr>"

definition defrag_stop :: "MacDefrag \<Rightarrow> MacDefrag" where
  "defrag_stop d = d\<lparr>b_stopped := True, m_fragmentsCount := 0, m_sdu := []\<rparr>"

definition defrag_append :: "Pdu \<Rightarrow> MacAddress \<Rightarrow> MacDefrag \<Rightarrow> MacDefrag" where
  "defrag_append sdu address d =
     (if b_stopped d then d
      else if ssi address \<noteq> ssi (macAddress d) then defrag_stop d
      else d\<lparr>m_sdu := m_sdu d @ sdu, m_fragmentsCount := (m_fragmentsCount d + 1) mod 256\<rparr>)"

text \<open>
  \<^verbatim>\<open>MacDefrag::getSdu\<close> returns the PDU and writes the encryption mode and the usage marker
  through its two pointers only when the defragmenter is not stopped: the model returns
  \<open>None\<close> for the two values the code leaves unwritten.
\<close>

definition defrag_getSdu :: "MacDefrag \<Rightarrow> Pdu \<times> (nat \<times> nat) option" where
  "defrag_getSdu d =
     (if b_stopped d then ([], None)
      else (m_sdu d, Some (encryptionMode (macAddress d), usageMarker (macAddress d))))"

text \<open>
  A run of \<^verbatim>\<open>append\<close> calls on the defragmenter, each with its fragment and the address
  it is given, in order.
\<close>

definition defrag_appends :: "(Pdu \<times> MacAddress) list \<Rightarrow> MacDefrag \<Rightarrow> MacDefrag" where
  "defrag_appends fs d = fold (\<lambda>(sdu, address). defrag_append sdu address) fs d"

text \<open>
  The defragmenter as the constructor \<^verbatim>\<open>MacDefrag::MacDefrag\<close> leaves it. The constructor
  does not set \<^verbatim>\<open>macAddress\<close> and \<^verbatim>\<open>startTime\<close>; the fields are 0 here.
\<close>

definition zero_address :: MacAddress where
  "zero_address = \<lparr>addressType = 0, ssi = 0, ussi = 0, smi = 0, eventLabel = 0,
     usageMarker = 0, encryptionMode = 0\<rparr>"

definition initial_MacDefrag :: MacDefrag where
  "initial_MacDefrag = \<lparr>macAddress = zero_address, startTime = \<lparr>tn = 0, fn = 0, mn = 0\<rparr>,
     m_sdu = [], b_stopped = True, m_fragmentsCount = 0\<rparr>"

subsection \<open>Cell state\<close>

text \<open>
  Modelled from the spec: the class \<^verbatim>\<open>TetraCell\<close> (\<^verbatim>\<open>common/tetracell.h\<close>) is not among the
  sources. The spec's \<^verbatim>\<open>CellState\<close> holds the mobile country code, the mobile network
  code, the colour code, the scrambling code derived from these three, and the
  downlink frequency. The MAC layer only calls \<^verbatim>\<open>updateScramblingCode\<close> and
  \<^verbatim>\<open>setFrequencies\<close>; the record keeps what the two calls are given.
\<close>

record TetraCell =
  cell_mcc :: nat
  cell_mnc :: nat
  cell_colorCode :: nat
  cell_downlinkFrequency :: int
  cell_uplinkFrequency :: int

definition updateScramblingCode :: "nat \<Rightarrow> nat \<Rightarrow> nat \<Rightarrow> TetraCell \<Rightarrow> TetraCell" where
  "updateScramblingCode mcc mnc colorCode c =
     c\<lparr>cell_mcc := mcc, cell_mnc := mnc, cell_colorCode := colorCode\<rparr>"

definition setFrequencies :: "int \<Rightarrow> int \<Rightarrow> TetraCell \<Rightarrow> TetraCell" where
  "setFrequencies downlink uplink c =
     c\<lparr>cell_downlinkFrequency := downlink, cell_uplinkFrequency := uplink\<rparr>"

subsection \<open>State of the MAC layer\<close>

text \<open>
  The members of the class \<^verbatim>\<open>Mac\<close> (\<^verbatim>\<open>mac/mac.h\<close>) that the upper MAC reads and writes.
  The upper layers are outside the sources: \<open>llc_service\<close> and \<open>uPlane_service\<close> record,
  in order, the arguments of the calls \<^verbatim>\<open>m_llc->service(...)\<close> and
  \<^verbatim>\<open>m_uPlane->service(...)\<close>. Logging and reporting are left out.
\<close>

record Mac =
  m_tetraTime :: TetraTime
  m_tetraCell :: TetraCell
  m_macState :: MacState
  m_macAddress :: MacAddress
  m_usageMarkerEncryptionMode :: "nat \<Rightarrow> nat"
  m_secondSlotStolenFlag :: nat
  m_bRemoveFillBits :: bool
  m_macDefrag :: MacDefrag
  llc_service :: "(Pdu \<times> MacLogicalChannel \<times> TetraTime \<times> MacAddress) list"
  uPlane_service ::
    "(Pdu \<times> MacLogicalChannel \<times> TetraTime \<times> MacAddress \<times> MacState \<times> nat) list"

definition set_downlinkUsage :: "DownlinkUsage \<Rightarrow> Mac \<Rightarrow> Mac" where
  "set_downlinkUsage u s = s\<lparr>m_macState := (m_macState s)\<lparr>downlinkUsage := u\<rparr>\<rparr>"

subsection \<open>AACH: ACCESS-ASSIGN\<close>

text \<open>\<^verbatim>\<open>Mac::pduProcessAach\<close>.\<close>

definition pduProcessAach :: "Pdu \<Rightarrow> Mac \<Rightarrow> Mac option" where
  "pduProcessAach pdu s =
     do {
       header \<leftarrow> getValue pdu 0 2;
       field1 \<leftarrow> getValue pdu 2 6;
       let s1 = s\<lparr>m_macState := (m_macState s)\<lparr>downlinkUsageMarker := 0\<rparr>\<rparr>;
       Some
         (if fn (m_tetraTime s1) = 18 then set_downlinkUsage COMMON_CONTROL s1
          else if header = 0 then set_downlinkUsage COMMON_CONTROL s1
          else if field1 = 0 then set_downlinkUsage UNALLOCATED s1
          else if field1 = 1 then set_downlinkUsage ASSIGNED_CONTROL s1
          else if field1 = 2 then set_downlinkUsage COMMON_CONTROL s1
          else if field1 = 3 then set_downlinkUsage RESERVED s1
          else (set_downlinkUsage TRAFFIC s1)
                 \<lparr>m_macState := (m_macState (set_downlinkUsage TRAFFIC s1))
                    \<lparr>downlinkUsageMarker := field1\<rparr>\<rparr>)
     }"

subsection \<open>BSCH: SYNC\<close>

text \<open>
  \<^verbatim>\<open>Mac::pduProcessSync\<close>. It returns the TM-SDU; a PDU shorter than 60 bits is reported
  and gives the empty TM-SDU.
\<close>

definition pduProcessSync :: "Pdu \<Rightarrow> Mac \<Rightarrow> (Pdu \<times> Mac) option" where
  "pduProcessSync pdu s =
     (if length pdu \<ge> 60 then
        do {
          colorCode \<leftarrow> getValue pdu 4 6;
          v_tn \<leftarrow> getValue pdu 10 2;
          v_fn \<leftarrow> getValue pdu 12 5;
          v_mn \<leftarrow> getValue pdu 17 6;
          let pos = 4 + 6 + 2 + 5 + 6 + 2 + 3 + 1 + 1 + 1;
          mcc \<leftarrow> getValue pdu 31 10;
          mnc \<leftarrow> getValue pdu 41 14;
          Some (Pdu_sub pdu pos 29,
                s\<lparr>m_tetraTime := (m_tetraTime s)\<lparr>tn := v_tn + 1, fn := v_fn, mn := v_mn\<rparr>,
                  m_tetraCell := updateScramblingCode mcc mnc colorCode (m_tetraCell s)\<rparr>)
        }
      else Some ([], s))"

subsection \<open>MAC-RESOURCE\<close>

text \<open>
  The \<^verbatim>\<open>switch (m_macAddress.addressType)\<close> of \<^verbatim>\<open>Mac::pduProcessResource\<close>: it reads the
  address fields at \<open>pos\<close> and gives the position after them. An address type with no
  \<^verbatim>\<open>case\<close> reads nothing.
\<close>

definition resource_address :: "Pdu \<Rightarrow> nat \<Rightarrow> Mac \<Rightarrow> (nat \<times> Mac) option" where
  "resource_address pdu pos s =
     (let a = m_macAddress s; t = addressType a in
      if t = 1 then
        do { v \<leftarrow> getValue pdu pos 24;
             Some (pos + 24, s\<lparr>m_macAddress := a\<lparr>ssi := v\<rparr>\<rparr>) }
      else if t = 3 then
        do { v \<leftarrow> getValue pdu pos 24;
             Some (pos + 24, s\<lparr>m_macAddress := a\<lparr>ussi := v\<rparr>\<rparr>) }
      else if t = 4 then
        do { v \<leftarrow> getValue pdu pos 24;
             Some (pos + 24, s\<lparr>m_macAddress := a\<lparr>smi := v\<rparr>\<rparr>) }
      else if t = 2 then
        do { v \<leftarrow> getValue pdu pos 10;
             Some (pos + 10, s\<lparr>m_macAddress := a\<lparr>eventLabel := v\<rparr>\<rparr>) }
      else if t = 5 then
        do { v \<leftarrow> getValue pdu pos 24;
             e \<leftarrow> getValue pdu (pos + 24) 10;
             Some (pos + 24 + 10, s\<lparr>m_macAddress := a\<lparr>ssi := v, eventLabel := e\<rparr>\<rparr>) }
      else if t = 6 then
        do { v \<leftarrow> getValue pdu pos 24;
             u \<leftarrow> getValue pdu (pos + 24) 6;
             Some (pos + 24 + 6,
                   s\<lparr>m_macAddress := a\<lparr>ssi := v, usageMarker := u\<rparr>,
                     m_usageMarkerEncryptionMode :=
                       (m_usageMarkerEncryptionMode s)(u := encryptionMode a)\<rparr>) }
      else if t = 7 then
        do { v \<leftarrow> getValue pdu pos 24;
             e \<leftarrow> getValue pdu (pos + 24) 10;
             Some (pos + 24 + 10, s\<lparr>m_macAddress := a\<lparr>smi := v, eventLabel := e\<rparr>\<rparr>) }
      else Some (pos, s))"

text \<open>
  The channel allocation element of \<^verbatim>\<open>Mac::pduProcessResource\<close> (the body of
  \<^verbatim>\<open>if (flag)\<close> after the channel allocation flag): \<open>pos\<close> is the position after the
  flag, the result the position after the element. The second argument is the frame
  number \<^verbatim>\<open>m_tetraTime.fn\<close>.
\<close>

definition resource_channel_allocation :: "Pdu \<Rightarrow> nat \<Rightarrow> nat \<Rightarrow> nat option" where
  "resource_channel_allocation pdu frame pos =
     do {
       let p1 = pos + 2 + 4;
       ul_dl \<leftarrow> getValue pdu p1 2;
       let p2 = p1 + 2 + 1 + 1 + 12;
       flag \<leftarrow> getValue pdu p2 1;
       let p3 = (if flag \<noteq> 0 then p2 + 1 + 4 + 2 + 3 + 1 else p2 + 1);
       val \<leftarrow> getValue pdu p3 2;
       let p4 = (if val = 0 \<and> frame = 18 then p3 + 2 + 2 else p3 + 2);
       if ul_dl = 0 then
         do {
           let p5 = p4 + 2 + 3 + 3 + 3 + 3 + 3 + 4 + 5;
           napping_sts \<leftarrow> getValue pdu p5 2;
           let p6 = (if napping_sts = 1 then p5 + 2 + 11 else p5 + 2) + 4;
           flag1 \<leftarrow> getValue pdu p6 1;
           let p7 = (if flag1 \<noteq> 0 then p6 + 1 + 16 else p6 + 1);
           flag2 \<leftarrow> getValue pdu p7 1;
           let p8 = (if flag2 \<noteq> 0 then p7 + 1 + 16 else p7 + 1);
           Some (p8 + 1)
         }
       else Some p4
     }"

text \<open>
  \<^verbatim>\<open>Mac::pduProcessResource\<close>. The result holds the TM-SDU returned and the values
  written through the pointers \<^verbatim>\<open>fragmentedPacketFlag\<close> and \<^verbatim>\<open>pduSizeInMac\<close>.
\<close>

definition pduProcessResource ::
  "Pdu \<Rightarrow> MacLogicalChannel \<Rightarrow> Mac \<Rightarrow> ((Pdu \<times> bool \<times> int) \<times> Mac) option" where
  "pduProcessResource mac_pdu macLogicalChannel s =
     do {
       nullAddressType \<leftarrow> getValue mac_pdu 13 3;
       if nullAddressType = 0 then Some (([], False, - 1), s)
       else
         do {
           fillBitFlag \<leftarrow> getValue mac_pdu 2 1;
           pdu \<leftarrow> (if fillBitFlag \<noteq> 0 then removeFillBits (m_bRemoveFillBits s) mac_pdu
                    else Some mac_pdu);
           enc \<leftarrow> getValue pdu 4 2;
           let s1 = s\<lparr>m_macAddress := (m_macAddress s)\<lparr>encryptionMode := enc\<rparr>\<rparr>;
           len \<leftarrow> getValue pdu 7 6;
           let fragmentedPacketFlag = (len = 63);
           let s2 = (if len = 62 then s1\<lparr>m_secondSlotStolenFlag := 1\<rparr>
                     else if len = 63 then s1\<lparr>m_secondSlotStolenFlag := 0\<rparr>
                     else s1);
           aType \<leftarrow> getValue pdu 13 3;
           let s3 = s2\<lparr>m_macAddress := (m_macAddress s2)\<lparr>addressType := aType\<rparr>\<rparr>;
           (pos1, s4) \<leftarrow> resource_address pdu 16 s3;
           powerControlFlag \<leftarrow> getValue pdu pos1 1;
           let pos2 = (if powerControlFlag \<noteq> 0 then pos1 + 1 + 4 else pos1 + 1);
           slotGrantingFlag \<leftarrow> getValue pdu pos2 1;
           let pos3 = (if slotGrantingFlag \<noteq> 0 then pos2 + 1 + 8 else pos2 + 1);
           flag \<leftarrow> getValue pdu pos3 1;
           pos \<leftarrow> (if flag \<noteq> 0
                    then resource_channel_allocation pdu (fn (m_tetraTime s4)) (pos3 + 1)
                    else Some (pos3 + 1));
           let pduSizeInMac = (if \<not> fragmentedPacketFlag then decodeLength len * 8 else 0);
           let sduLength = decodeLength len * 8 - int pos;
           Some
             (if sduLength > 0 then
                (if fragmentedPacketFlag then
                   (([], fragmentedPacketFlag, pduSizeInMac),
                    s4\<lparr>m_macDefrag :=
                         defrag_append (Pdu_from pdu pos) (m_macAddress s4)
                           (defrag_start (m_macAddress s4) (m_tetraTime s4) (m_macDefrag s4))\<rparr>)
                 else ((Pdu_sub pdu pos (nat sduLength), fragmentedPacketFlag, pduSizeInMac), s4))
              else (([], fragmentedPacketFlag, pduSizeInMac), s4))
         }
     }"

subsection \<open>MAC-FRAG and MAC-END\<close>

text \<open>\<^verbatim>\<open>Mac::pduProcessMacFrag\<close>.\<close>

definition pduProcessMacFrag :: "Pdu \<Rightarrow> Mac \<Rightarrow> Mac option" where
  "pduProcessMacFrag mac_pdu s =
     do {
       fillBitFlag \<leftarrow> getValue mac_pdu 3 1;
       pdu \<leftarrow> (if fillBitFlag \<noteq> 0 then removeFillBits (m_bRemoveFillBits s) mac_pdu
                else Some mac_pdu);
       Some (s\<lparr>m_macDefrag := defrag_append (Pdu_from pdu 4) (m_macAddress s) (m_macDefrag s)\<rparr>)
     }"

text \<open>
  The channel allocation element of \<^verbatim>\<open>Mac::pduProcessMacEnd\<close>: as in MAC-RESOURCE, but
  without the augmented element.
\<close>

definition macend_channel_allocation :: "Pdu \<Rightarrow> nat \<Rightarrow> nat \<Rightarrow> nat option" where
  "macend_channel_allocation pdu frame pos =
     do {
       let p2 = pos + 2 + 4 + 2 + 1 + 1 + 12;
       flag \<leftarrow> getValue pdu p2 1;
       let p3 = (if flag \<noteq> 0 then p2 + 1 + 4 + 2 + 3 + 1 else p2 + 1);
       val \<leftarrow> getValue pdu p3 2;
       Some (if val = 0 \<and> frame = 18 then p3 + 2 + 2 else p3 + 2)
     }"

text \<open>
  The end of \<^verbatim>\<open>Mac::pduProcessMacEnd\<close>, from \<^verbatim>\<open>m_macDefrag->append(Pdu(pdu, pos), ...)\<close>
  on: it appends the rest of the PDU to the defragmenter, takes the reassembled TM-SDU
  with the encryption mode and usage marker the defragmenter gives, writes them to the
  usage marker table and to \<^verbatim>\<open>m_macAddress\<close> when the TM-SDU is not empty, and stops the
  defragmenter.
\<close>

definition macend_reassemble :: "Pdu \<Rightarrow> nat \<Rightarrow> Mac \<Rightarrow> Pdu \<times> Mac" where
  "macend_reassemble pdu pos s =
     (let d = defrag_append (Pdu_from pdu pos) (m_macAddress s) (m_macDefrag s) in
      case defrag_getSdu d of
        (sdu, Some (encryptionMode_out, usageMarker_out)) \<Rightarrow>
          (sdu,
           (if length sdu > 0 then
              s\<lparr>m_usageMarkerEncryptionMode :=
                  (m_usageMarkerEncryptionMode s)(usageMarker_out := encryptionMode_out),
                m_macAddress := (m_macAddress s)\<lparr>encryptionMode := encryptionMode_out\<rparr>\<rparr>
            else s)\<lparr>m_macDefrag := defrag_stop d\<rparr>)
      | (sdu, None) \<Rightarrow> (sdu, s\<lparr>m_macDefrag := defrag_stop d\<rparr>))"

text \<open>\<^verbatim>\<open>Mac::pduProcessMacEnd\<close>.\<close>

definition pduProcessMacEnd :: "Pdu \<Rightarrow> Mac \<Rightarrow> (Pdu \<times> Mac) option" where
  "pduProcessMacEnd mac_pdu s =
     do {
       fillBitFlag \<leftarrow> getValue mac_pdu 3 1;
       pdu \<leftarrow> (if fillBitFlag \<noteq> 0 then removeFillBits (m_bRemoveFillBits s) mac_pdu
                else Some mac_pdu);
       val \<leftarrow> getValue pdu 5 6;
       if val < 2 \<or> val > 34 then Some ([], s)
       else
         do {
           slotGrantingFlag \<leftarrow> getValue pdu 11 1;
           let pos1 = (if slotGrantingFlag \<noteq> 0 then 12 + 8 else 12);
           flag \<leftarrow> getValue pdu pos1 1;
           pos \<leftarrow> (if flag \<noteq> 0
                    then macend_channel_allocation pdu (fn (m_tetraTime s)) (pos1 + 1)
                    else Some (pos1 + 1));
           Some (macend_reassemble pdu pos s)
         }
     }"

subsection \<open>SYSINFO, MAC-D-BLCK and ACCESS-DEFINE\<close>

text \<open>
  \<^verbatim>\<open>Mac::pduProcessSysinfo\<close>: the TM-SDU and the value written to \<^verbatim>\<open>pduSizeInMac\<close>. The
  frequency is computed on \<^verbatim>\<open>int32_t\<close>; with a 4-bit band and a 12-bit carrier it stays
  below \<open>2^31\<close>.
\<close>

definition duplex :: "nat \<Rightarrow> int" where
  "duplex offset = [0, 6250, - 6250, 12500] ! offset"

definition pduProcessSysinfo :: "Pdu \<Rightarrow> Mac \<Rightarrow> ((Pdu \<times> int) \<times> Mac) option" where
  "pduProcessSysinfo pdu s =
     (if length pdu \<ge> 82 then
        do {
          main_carrier \<leftarrow> getValue pdu 4 12;
          band_frequency \<leftarrow> getValue pdu 16 4;
          offset \<leftarrow> getValue pdu 20 2;
          let pos0 = 22 + 3 + 1 + 2 + 3 + 4 + 4 + 4;
          flag \<leftarrow> getValue pdu pos0 1;
          let pos = (if flag \<noteq> 0 then pos0 + 1 + 16 else pos0 + 1 + 16) + 2 + 20;
          Some ((Pdu_sub pdu pos 42, int pos + 42),
                s\<lparr>m_tetraCell :=
                    setFrequencies
                      (int band_frequency * 100000000 + int main_carrier * 25000 + duplex offset)
                      0 (m_tetraCell s)\<rparr>)
        }
      else Some (([], 0), s))"

text \<open>\<^verbatim>\<open>Mac::pduProcessDBlock\<close>: the TM-SDU and the value written to \<^verbatim>\<open>pduSizeInMac\<close>.\<close>

definition pduProcessDBlock :: "Pdu \<Rightarrow> Mac \<Rightarrow> ((Pdu \<times> int) \<times> Mac) option" where
  "pduProcessDBlock mac_pdu s =
     (if length mac_pdu \<ge> 268 then
        do {
          fillBitFlag \<leftarrow> getValue mac_pdu 3 1;
          pdu \<leftarrow> (if fillBitFlag \<noteq> 0 then removeFillBits (m_bRemoveFillBits s) mac_pdu
                   else Some mac_pdu);
          enc \<leftarrow> getValue pdu 4 2;
          label \<leftarrow> getValue pdu 6 10;
          flag \<leftarrow> getValue pdu 17 1;
          let pos = (if flag \<noteq> 0 then 18 + 8 else 18);
          Some ((Pdu_from pdu pos, 268),
                s\<lparr>m_macAddress := (m_macAddress s)\<lparr>encryptionMode := enc, eventLabel := label\<rparr>\<rparr>)
        }
      else Some (([], 0), s))"

text \<open>\<^verbatim>\<open>Mac::pduProcessAccessDefine\<close>: the value written to \<^verbatim>\<open>pduSizeInMac\<close>.\<close>

definition pduProcessAccessDefine :: "Pdu \<Rightarrow> int option" where
  "pduProcessAccessDefine pdu =
     do {
       let pos0 = 2 + 2 + 1 + 2 + 4 + 4 + 4 + 1 + 4 + 3;
       flag \<leftarrow> getValue pdu pos0 2;
       let pos1 = (if flag = 1 then pos0 + 1 + 16
                   else if flag = 2 then pos0 + 1 + 24
                   else pos0 + 1);
       Some (int (pos1 + 3))
     }"

subsection \<open>Upper MAC: dispatch and dissociation loop\<close>

text \<open>
  The local variables of \<^verbatim>\<open>Mac::serviceUpperMac\<close> that live across the iterations of
  its \<^verbatim>\<open>do ... while\<close> loop, but for the counter \<^verbatim>\<open>pduCount\<close>, which is an argument of
  the loop below. \<^verbatim>\<open>bSendTmSduToLlc\<close> and \<^verbatim>\<open>dissociatePduFlag\<close> are set anew in every
  iteration.
\<close>

record UpperMacVars =
  v_pdu :: Pdu
  v_tmSdu :: Pdu
  v_fragmentedPacketFlag :: bool
  v_pduSizeInMac :: int

text \<open>
  The inner \<^verbatim>\<open>switch (pduType)\<close> of the loop, for the channels STCH, BNCH, SCH/F and
  SCH/HD. The result is \<open>(bSendTmSduToLlc, dissociatePduFlag)\<close>, the variables and the
  state.
\<close>

definition signalling_dispatch ::
  "MacLogicalChannel \<Rightarrow> UpperMacVars \<Rightarrow> Mac \<Rightarrow> ((bool \<times> bool) \<times> UpperMacVars \<times> Mac) option"
  where
  "signalling_dispatch macLogicalChannel v s =
     do {
       pduType \<leftarrow> getValue (v_pdu v) 0 2;
       if pduType = 0 then
         do {
           ((sdu, fragmentedPacketFlag, pduSizeInMac), s') \<leftarrow>
              pduProcessResource (v_pdu v) macLogicalChannel s;
           let v' = v\<lparr>v_tmSdu := sdu, v_fragmentedPacketFlag := fragmentedPacketFlag,
                      v_pduSizeInMac := pduSizeInMac\<rparr>;
           Some (if fragmentedPacketFlag then ((False, False), v', s')
                 else if pduSizeInMac > 0 then ((True, True), v', s')
                 else ((True, False), v', s'))
         }
       else if pduType = 1 then
         do {
           subType \<leftarrow> getValue (v_pdu v) 2 1;
           if subType = 0 then
             do { s' \<leftarrow> pduProcessMacFrag (v_pdu v) s; Some ((False, False), v, s') }
           else
             do { (sdu, s') \<leftarrow> pduProcessMacEnd (v_pdu v) s;
                  Some ((True, False), v\<lparr>v_tmSdu := sdu\<rparr>, s') }
         }
       else if pduType = 2 then
         do {
           broadcastType \<leftarrow> getValue (v_pdu v) 2 2;
           if broadcastType = 0 then
             do { ((sdu, pduSizeInMac), s') \<leftarrow> pduProcessSysinfo (v_pdu v) s;
                  Some ((True, False), v\<lparr>v_tmSdu := sdu, v_pduSizeInMac := pduSizeInMac\<rparr>, s') }
           else if broadcastType = 1 then
             do { pduSizeInMac \<leftarrow> pduProcessAccessDefine (v_pdu v);
                  Some ((True, False), v\<lparr>v_pduSizeInMac := pduSizeInMac\<rparr>, s) }
           else Some ((True, False), v, s)
         }
       else
         do {
           subType \<leftarrow> getValue (v_pdu v) 2 1;
           if macLogicalChannel \<noteq> STCH \<and> macLogicalChannel \<noteq> SCH_HD then
             do { ((sdu, pduSizeInMac), s') \<leftarrow> pduProcessDBlock (v_pdu v) s;
                  Some ((True, False), v\<lparr>v_tmSdu := sdu, v_pduSizeInMac := pduSizeInMac\<rparr>, s') }
           else Some ((True, False), v, s)
         }
     }"

text \<open>
  The outer \<^verbatim>\<open>switch (macLogicalChannel)\<close>. The index of the usage marker table is cast
  to \<^verbatim>\<open>uint8_t\<close>.
\<close>

definition upper_mac_dispatch ::
  "MacLogicalChannel \<Rightarrow> UpperMacVars \<Rightarrow> Mac \<Rightarrow> ((bool \<times> bool) \<times> UpperMacVars \<times> Mac) option"
  where
  "upper_mac_dispatch macLogicalChannel v s =
     (if macLogicalChannel = AACH then
        do { s' \<leftarrow> pduProcessAach (v_pdu v) s; Some ((True, False), v, s') }
      else if macLogicalChannel = BSCH then
        do { (sdu, s') \<leftarrow> pduProcessSync (v_pdu v) s;
             Some ((True, False), v\<lparr>v_tmSdu := sdu\<rparr>, s') }
      else if macLogicalChannel = TCH_S \<or> macLogicalChannel = TCH then
        Some ((True, False), v,
              s\<lparr>uPlane_service := uPlane_service s @
                   [(v_pdu v, macLogicalChannel, m_tetraTime s, m_macAddress s, m_macState s,
                     m_usageMarkerEncryptionMode s
                       (downlinkUsageMarker (m_macState s) mod 256))]\<rparr>)
      else if macLogicalChannel = STCH \<or> macLogicalChannel = BNCH
              \<or> macLogicalChannel = SCH_F \<or> macLogicalChannel = SCH_HD then
        signalling_dispatch macLogicalChannel v s
      else Some ((True, False), v, s))"

text \<open>
  One iteration of the loop, from the dispatch to the \<^verbatim>\<open>break\<close>. The first component of
  the result says that no \<^verbatim>\<open>break\<close> was taken and that
  \<^verbatim>\<open>bSendTmSduToLlc && dissociatePduFlag\<close> holds.
\<close>

definition serviceUpperMac_iteration ::
  "MacLogicalChannel \<Rightarrow> UpperMacVars \<Rightarrow> Mac \<Rightarrow> (bool \<times> UpperMacVars \<times> Mac) option" where
  "serviceUpperMac_iteration macLogicalChannel v s =
     do {
       ((bSendTmSduToLlc, dissociatePduFlag), v1, s1) \<leftarrow> upper_mac_dispatch macLogicalChannel v s;
       let s2 = (if v_tmSdu v1 \<noteq> [] \<and> bSendTmSduToLlc
                 then s1\<lparr>llc_service := llc_service s1 @
                          [(v_tmSdu v1, macLogicalChannel, m_tetraTime s1, m_macAddress s1)]\<rparr>
                 else s1);
       Some
         (if int (length (v_pdu v1)) - v_pduSizeInMac v1 < 40 then (False, v1, s2)
          else
            (let v2 = (if dissociatePduFlag
                       then v1\<lparr>v_pdu := Pdu_from (v_pdu v1) (nat (v_pduSizeInMac v1))\<rparr>
                       else v1)
             in (bSendTmSduToLlc \<and> dissociatePduFlag, v2, s2)))
     }"

text \<open>
  The \<^verbatim>\<open>do ... while\<close> loop; \<open>pduCount\<close> is the counter at the start of the iteration,
  incremented in the iteration and compared with 32 in the loop condition. Besides the
  result of the loop (\<open>None\<close> when a read failed) the function counts the iterations it
  began: the count is not a value of the code.
\<close>

function serviceUpperMac_loop ::
  "MacLogicalChannel \<Rightarrow> nat \<Rightarrow> UpperMacVars \<Rightarrow> Mac \<Rightarrow> nat \<times> (UpperMacVars \<times> Mac) option"
  where
  "serviceUpperMac_loop macLogicalChannel pduCount v s =
     (case serviceUpperMac_iteration macLogicalChannel v s of
        None \<Rightarrow> (1, None)
      | Some (again, v', s') \<Rightarrow>
          if again \<and> pduCount + 1 < 32 then
            (case serviceUpperMac_loop macLogicalChannel (pduCount + 1) v' s' of
               (n, r) \<Rightarrow> (n + 1, r))
          else (1, Some (v', s')))"
  by pat_completeness auto
termination
  by (relation "measure (\<lambda>(macLogicalChannel, pduCount, v, s). 32 - pduCount)") auto

declare serviceUpperMac_loop.simps [simp del]

text \<open>
  \<^verbatim>\<open>Mac::serviceUpperMac\<close>: the number of iterations of the loop, and the state of the MAC
  layer when the loop ends without a failure.
\<close>

definition serviceUpperMac :: "Pdu \<Rightarrow> MacLogicalChannel \<Rightarrow> Mac \<Rightarrow> nat \<times> Mac option" where
  "serviceUpperMac data macLogicalChannel s =
     (case serviceUpperMac_loop macLogicalChannel 0
             \<lparr>v_pdu = data, v_tmSdu = [], v_fragmentedPacketFlag = False, v_pduSizeInMac = 0\<rparr>
             (s\<lparr>m_macState := (m_macState s)\<lparr>logicalChannel := macLogicalChannel\<rparr>\<rparr>) of
        (n, r) \<Rightarrow> (n, map_option snd r))"

text \<open>
  The MAC layer as the constructor \<^verbatim>\<open>Mac::Mac\<close> leaves it: the TDMA time is \<open>(1, 1, 1)\<close>,
  the 64 encryption modes are 0, the defragmenter is stopped. The constructor leaves
  \<^verbatim>\<open>m_macState\<close>, \<^verbatim>\<open>m_macAddress\<close> and \<^verbatim>\<open>m_secondSlotStolenFlag\<close> unset; they are
  \<open>UNALLOCATED\<close>, \<open>unknown_channel\<close> and 0 here. The argument is the constructor's
  \<^verbatim>\<open>bRemoveFillBits\<close>.
\<close>

definition initial_Mac :: "bool \<Rightarrow> Mac" where
  "initial_Mac bRemoveFillBits =
     \<lparr>m_tetraTime = initial_time,
      m_tetraCell = \<lparr>cell_mcc = 0, cell_mnc = 0, cell_colorCode = 0,
         cell_downlinkFrequency = 0, cell_uplinkFrequency = 0\<rparr>,
      m_macState = \<lparr>downlinkUsage = UNALLOCATED, downlinkUsageMarker = 0,
         logicalChannel = unknown_channel\<rparr>,
      m_macAddress = zero_address,
      m_usageMarkerEncryptionMode = (\<lambda>idx. 0),
      m_secondSlotStolenFlag = 0,
      m_bRemoveFillBits = bRemoveFillBits,
      m_macDefrag = initial_MacDefrag,
      llc_service = [],
      uPlane_service = []\<rparr>"

subsection \<open>Burst synchronizer\<close>

text \<open>
  The training sequences and the burst length of \<^verbatim>\<open>decoder.h\<close>. A symbol is a
  \<^verbatim>\<open>uint8_t\<close>.
\<close>

type_synonym symbol = "8 word"

definition NORMAL_TRAINING_SEQ_1 :: "symbol list" where
  "NORMAL_TRAINING_SEQ_1 = [1,1,0,1,0,0,0,0,1,1,1,0,1,0,0,1,1,1,0,1,0,0]"

definition NORMAL_TRAINING_SEQ_2 :: "symbol list" where
  "NORMAL_TRAINING_SEQ_2 = [0,1,1,1,1,0,1,0,0,1,0,0,0,0,1,1,0,1,1,1,1,0]"

definition NORMAL_TRAINING_SEQ_3_BEGIN :: "symbol list" where
  "NORMAL_TRAINING_SEQ_3_BEGIN = [0,0,0,1,1,0,1,0,1,1,0,1]"

definition NORMAL_TRAINING_SEQ_3_END :: "symbol list" where
  "NORMAL_TRAINING_SEQ_3_END = [1,0,1,1,0,1,1,1,0,0]"

definition SYNC_TRAINING_SEQ :: "symbol list" where
  "SYNC_TRAINING_SEQ =
     [1,1,0,0,0,0,0,1,1,0,0,1,1,1,0,0,1,1,1,0,1,0,0,1,1,1,0,0,0,0,0,1,1,0,0,1,1,1]"

definition FRAME_LEN :: nat where
  "FRAME_LEN = 510"

datatype BurstType = SB | NDB | NDB_SF

text \<open>
  \<^verbatim>\<open>TetraDecoder::patternAtPositionScore\<close>: the loop over the indices of the pattern adds
  the exclusive or of the two symbols to a \<^verbatim>\<open>uint32_t\<close>. The code reads
  \<^verbatim>\<open>data[position + idx]\<close> unchecked; every call below is on a frame of at least 510
  symbols with \<open>position + idx < 510\<close>.
\<close>

definition patternAtPositionScore :: "symbol list \<Rightarrow> symbol list \<Rightarrow> nat \<Rightarrow> nat" where
  "patternAtPositionScore data pattern position =
     fold (\<lambda>idx errors. (errors + unat ((pattern ! idx) XOR (data ! (position + idx)))) mod 2 ^ 32)
       [0..<length pattern] 0"

text \<open>
  The state of \<^verbatim>\<open>TetraDecoder\<close>. \<^verbatim>\<open>m_syncBitCounter\<close> is a \<^verbatim>\<open>uint64_t\<close>: a natural number
  below \<open>2^64\<close>, with the wrap-around of the decrement written out in \<open>decrement64\<close>.
  Two fields are not in the code: \<open>rx_count\<close> counts the symbols received, and
  \<open>processFrame_at\<close> lists the values of \<open>rx_count\<close> at which \<^verbatim>\<open>processFrame\<close> was called.
\<close>

record TetraDecoder =
  m_frame :: "symbol list"
  m_bIsSynchronized :: bool
  m_syncBitCounter :: nat
  m_mac :: Mac
  rx_count :: nat
  processFrame_at :: "nat list"

definition decrement64 :: "nat \<Rightarrow> nat" where
  "decrement64 c = (if c = 0 then 2 ^ 64 - 1 else c - 1)"

text \<open>The decoder as the constructor \<^verbatim>\<open>TetraDecoder::TetraDecoder\<close> leaves it.\<close>

definition initial_decoder :: "bool \<Rightarrow> TetraDecoder" where
  "initial_decoder bRemoveFillBits =
     \<lparr>m_frame = [], m_bIsSynchronized = False, m_syncBitCounter = 0,
      m_mac = initial_Mac bRemoveFillBits, rx_count = 0, processFrame_at = []\<rparr>"

text \<open>\<^verbatim>\<open>TetraDecoder::resetSynchronizer\<close>.\<close>

definition resetSynchronizer :: "TetraDecoder \<Rightarrow> TetraDecoder" where
  "resetSynchronizer d = d\<lparr>m_bIsSynchronized := True, m_syncBitCounter := FRAME_LEN * 50\<rparr>"

text \<open>
  \<^verbatim>\<open>TetraDecoder::processFrame\<close>. The lower MAC \<^verbatim>\<open>Mac::serviceLowerMac\<close> rests on block
  decoders (descrambling, deinterleaving, Viterbi and Reed-Muller decoding, CRC) that
  are not among the sources: it is the parameter \<open>serviceLowerMac\<close>.
\<close>

definition processFrame ::
  "(symbol list \<Rightarrow> BurstType \<Rightarrow> Mac \<Rightarrow> Mac) \<Rightarrow> TetraDecoder \<Rightarrow> TetraDecoder" where
  "processFrame serviceLowerMac d =
     (let scoreSync = patternAtPositionScore (m_frame d) SYNC_TRAINING_SEQ 214;
          scoreNormal1 = patternAtPositionScore (m_frame d) NORMAL_TRAINING_SEQ_1 244;
          scoreNormal2 = patternAtPositionScore (m_frame d) NORMAL_TRAINING_SEQ_2 244;
          (scoreMin1, burstType1) =
             (if scoreNormal1 < scoreSync then (scoreNormal1, NDB) else (scoreSync, SB));
          (scoreMin, burstType) =
             (if scoreNormal2 < scoreMin1 then (scoreNormal2, NDB_SF) else (scoreMin1, burstType1));
          d1 = d\<lparr>processFrame_at := processFrame_at d @ [rx_count d]\<rparr>
      in if scoreMin \<le> 5 then d1\<lparr>m_mac := serviceLowerMac (m_frame d) burstType (m_mac d)\<rparr>
         else d1)"

text \<open>
  \<^verbatim>\<open>TetraDecoder::rxSymbol\<close> on a full frame, from the test of the two scores on;
  \<open>frameFound\<close> is the outcome of that test.
\<close>

definition rxSymbol_frame ::
  "(symbol list \<Rightarrow> BurstType \<Rightarrow> Mac \<Rightarrow> Mac) \<Rightarrow> bool \<Rightarrow> TetraDecoder \<Rightarrow> TetraDecoder" where
  "rxSymbol_frame serviceLowerMac frameFound d1 =
     (let d2 = (if frameFound then resetSynchronizer d1 else d1);
          clearedFlag =
            (frameFound \<or> (m_bIsSynchronized d2 \<and> m_syncBitCounter d2 mod 510 = 0));
          d3 = (if clearedFlag
                then (processFrame serviceLowerMac
                        (d2\<lparr>m_mac := (m_mac d2)
                              \<lparr>m_tetraTime := incrementTn (m_tetraTime (m_mac d2))\<rparr>\<rparr>))
                     \<lparr>m_frame := []\<rparr>
                else d2);
          d4 = d3\<lparr>m_syncBitCounter := decrement64 (m_syncBitCounter d3)\<rparr>;
          d5 = (if m_syncBitCounter d4 \<le> 0
                then d4\<lparr>m_bIsSynchronized := False, m_syncBitCounter := 0\<rparr>
                else d4)
      in if \<not> clearedFlag then d5\<lparr>m_frame := tl (m_frame d5)\<rparr> else d5)"

text \<open>\<^verbatim>\<open>TetraDecoder::rxSymbol\<close>: the value returned and the new state.\<close>

definition rxSymbol ::
  "(symbol list \<Rightarrow> BurstType \<Rightarrow> Mac \<Rightarrow> Mac) \<Rightarrow> symbol \<Rightarrow> TetraDecoder \<Rightarrow> bool \<times> TetraDecoder"
  where
  "rxSymbol serviceLowerMac symb d0 =
     (let d1 = d0\<lparr>m_frame := m_frame d0 @ [symb], rx_count := rx_count d0 + 1\<rparr> in
      if length (m_frame d1) < FRAME_LEN then (False, d1)
      else
        (let scoreBegin = patternAtPositionScore (m_frame d1) NORMAL_TRAINING_SEQ_3_BEGIN 0;
             scoreEnd = patternAtPositionScore (m_frame d1) NORMAL_TRAINING_SEQ_3_END 500;
             frameFound = (scoreBegin = 0 \<and> scoreEnd < 2)
         in (frameFound, rxSymbol_frame serviceLowerMac frameFound d1)))"

text \<open>
  The decoder fed a sequence of symbols, as the loop of \<^verbatim>\<open>main\<close> does: the state after
  the last symbol, and whether some call of \<open>rxSymbol\<close> on the way found a frame.
\<close>

fun rx_symbols ::
  "(symbol list \<Rightarrow> BurstType \<Rightarrow> Mac \<Rightarrow> Mac) \<Rightarrow> symbol list \<Rightarrow> TetraDecoder \<Rightarrow> TetraDecoder"
  where
  "rx_symbols serviceLowerMac [] d = d"
| "rx_symbols serviceLowerMac (symb # symbs) d =
     rx_symbols serviceLowerMac symbs (snd (rxSymbol serviceLowerMac symb d))"

fun frame_found ::
  "(symbol list \<Rightarrow> BurstType \<Rightarrow> Mac \<Rightarrow> Mac) \<Rightarrow> symbol list \<Rightarrow> TetraDecoder \<Rightarrow> bool"
  where
  "frame_found serviceLowerMac [] d = False"
| "frame_found serviceLowerMac (symb # symbs) d =
     (fst (rxSymbol serviceLowerMac symb d)
      \<or> frame_found serviceLowerMac symbs (snd (rxSymbol serviceLowerMac symb d)))"

text \<open>
  A burst that \<open>rxSymbol\<close> matches: the training sequence at both ends, zeros between.
  \<open>no_lower_mac\<close> is a lower MAC that leaves the MAC layer as it is.
\<close>

definition matched_burst :: "symbol list" where
  "matched_burst = NORMAL_TRAINING_SEQ_3_BEGIN @ replicate 488 0 @ NORMAL_TRAINING_SEQ_3_END"

definition no_lower_mac :: "symbol list \<Rightarrow> BurstType \<Rightarrow> Mac \<Rightarrow> Mac" where
  "no_lower_mac data burstType mac = mac"

subsection \<open>The synchronizer without a match\<close>

text \<open>
  A proof device, not part of the code: what the synchronizer's course depends on when
  no frame is found (the length of the frame buffer, the two members of the
  synchronizer, the number of symbols received and the calls of \<^verbatim>\<open>processFrame\<close>), and
  the step \<open>rxSymbol\<close> makes on it when the training sequence does not match.
\<close>

type_synonym sync_view = "nat \<times> bool \<times> nat \<times> nat \<times> nat list"

definition sync_view :: "TetraDecoder \<Rightarrow> sync_view" where
  "sync_view d =
     (length (m_frame d), m_bIsSynchronized d, m_syncBitCounter d, rx_count d, processFrame_at d)"

fun unmatched_step :: "sync_view \<Rightarrow> sync_view" where
  "unmatched_step (len, synced, c, n, calls) =
     (if len + 1 < 510 then (len + 1, synced, c, n + 1, calls)
      else if synced \<and> c mod 510 = 0
        then (0, synced \<and> decrement64 c \<noteq> 0, decrement64 c, n + 1, calls @ [n + 1])
        else (len, synced \<and> decrement64 c \<noteq> 0, decrement64 c, n + 1, calls))"

subsection \<open>Example PDUs\<close>

text \<open>
  A chain of \<open>n\<close> back-to-back MAC-RESOURCE PDUs of two octets each: PDU type \<open>00\<close>, no
  fill bits, length indication \<open>000010\<close>, address type \<open>010\<close>.
\<close>

definition resource_chain :: "nat \<Rightarrow> Pdu" where
  "resource_chain n = concat (replicate n
     [False, False, False, False, False, False, False, False, False, False, False, True, False,
      False, True, False])"

text \<open>
  A fragmented message. \<open>frag_start_pdu\<close> is a MAC-RESOURCE that starts the
  fragmentation (length indication \<open>111111\<close>) for the SSI 10 with encryption mode 1 and
  carries 5 bits of the message. \<open>event_label_pdu\<close> is a complete MAC-RESOURCE of 5
  octets, addressed by the event label 1, with encryption mode 2. \<open>mac_end_pdu\<close> is a
  MAC-END (length 4) that carries the last 7 bits of the message.
\<close>

definition frag_start_pdu :: Pdu where
  "frag_start_pdu =
     [False, False] @ [False] @ [False] @ [False, True] @ [False]
     @ [True, True, True, True, True, True] @ [False, False, True]
     @ replicate 20 False @ [True, False, True, False] @ [False, False, False]
     @ [True, True, False, False, True]"

definition event_label_pdu :: Pdu where
  "event_label_pdu =
     [False, False] @ [False] @ [False] @ [True, False] @ [False]
     @ [False, False, False, True, False, True] @ [False, True, False]
     @ replicate 9 False @ [True] @ [False, False, False]
     @ replicate 11 True"

definition mac_end_pdu :: Pdu where
  "mac_end_pdu =
     [False, True] @ [True] @ [False] @ [False]
     @ [False, False, False, True, False, False] @ [False] @ [False]
     @ [False, True, True, True, False, False, True]"

text \<open>
  The address \<open>frag_start_pdu\<close> sets, and a state of the MAC layer in which a
  reassembly for it is under way while the current encryption mode is 2.
\<close>

definition fragment_address :: MacAddress where
  "fragment_address = zero_address\<lparr>addressType := 1, ssi := 10, encryptionMode := 1\<rparr>"

definition mac_before_end :: Mac where
  "mac_before_end = (initial_Mac True)
     \<lparr>m_macAddress := fragment_address\<lparr>encryptionMode := 2\<rparr>,
      m_macDefrag := defrag_appends [([True, True, False, False, True], fragment_address)]
                       (defrag_start fragment_address initial_time initial_MacDefrag)\<rparr>"

text \<open>
  The next call of \<open>serviceUpperMac\<close>, on the state the calls before it left; a failed
  read ends the run.
\<close>

definition then_serviceUpperMac :: "Pdu \<Rightarrow> MacLogicalChannel \<Rightarrow> Mac option \<Rightarrow> Mac option" where
  "then_serviceUpperMac data ch r =
     (case r of None \<Rightarrow> None | Some s \<Rightarrow> snd (serviceUpperMac data ch s))"

subsection \<open>Position of a TDMA time within the hyperframe\<close>

text \<open>
  A proof device only: the number of time slots between the start of the hyperframe
  and the time \<open>t\<close>. It is not part of the code.
\<close>

definition time_index :: "TetraTime \<Rightarrow> nat" where
  "time_index t = (mn t - 1) * 72 + (fn t - 1) * 4 + (tn t - 1)"

section \<open>Properties\<close>

subsection \<open>TDMA time\<close>

lemma incrementTn_in_range: "time_in_range t \<Longrightarrow> time_in_range (incrementTn t)"
  by (auto simp: time_in_range_def incrementTn_def Let_def)

lemma time_index_bound: "time_in_range t \<Longrightarrow> time_index t < 4320"
  unfolding time_in_range_def time_index_def by linarith

lemma time_index_incrementTn:
  assumes r: "time_in_range t"
  shows "time_index (incrementTn t) = (time_index t + 1) mod 4320"
proof -
  consider (slot) "tn t < 4"
    | (frame) "tn t = 4" "fn t < 18"
    | (multi) "tn t = 4" "fn t = 18" "mn t < 60"
    | (hyper) "tn t = 4" "fn t = 18" "mn t = 60"
    using r unfolding time_in_range_def by linarith
  then show ?thesis
  proof cases
    case slot
    then have "time_index (incrementTn t) = time_index t + 1"
      using r by (simp add: time_in_range_def incrementTn_def time_index_def; arith?)
    moreover have "time_index t + 1 < 4320"
      using r slot unfolding time_in_range_def time_index_def by linarith
    ultimately show ?thesis by simp
  next
    case frame
    then have "time_index (incrementTn t) = time_index t + 1"
      using r by (simp add: time_in_range_def incrementTn_def time_index_def; arith?)
    moreover have "time_index t + 1 < 4320"
      using r frame unfolding time_in_range_def time_index_def by linarith
    ultimately show ?thesis by simp
  next
    case multi
    then have "time_index (incrementTn t) = time_index t + 1"
      using r by (simp add: time_in_range_def incrementTn_def time_index_def; arith?)
    moreover have "time_index t + 1 < 4320"
      using r multi unfolding time_in_range_def time_index_def by linarith
    ultimately show ?thesis by simp
  next
    case hyper
    then show ?thesis
      by (simp add: incrementTn_def time_index_def)
  qed
qed

lemma funpow_incrementTn_in_range:
  "time_in_range t \<Longrightarrow> time_in_range ((incrementTn ^^ k) t)"
  by (induction k) (simp_all add: incrementTn_in_range)

lemma time_index_funpow:
  "time_in_range t \<Longrightarrow> time_index ((incrementTn ^^ k) t) = (time_index t + k) mod 4320"
proof (induction k)
  case 0
  then have "time_index t < 4320"
    unfolding time_in_range_def time_index_def by auto
  then show ?case by simp
next
  case (Suc k)
  then show ?case
    by (simp add: time_index_incrementTn funpow_incrementTn_in_range mod_Suc_eq)
qed

lemma time_index_zero:
  "time_in_range t \<Longrightarrow> time_index t = 0 \<Longrightarrow> t = initial_time"
  unfolding time_in_range_def time_index_def initial_time_def
  by (cases t) auto

lemma initial_time_in_range: "time_in_range initial_time"
  by (simp add: time_in_range_def initial_time_def)

text \<open>
  Claim C8. Starting from the TDMA time \<open>(tn, fn, mn) = (1, 1, 1)\<close>, \<open>4 * 18 * 60 = 4320\<close>
  applications of \<open>incrementTn\<close> lead back to \<open>(1, 1, 1)\<close>, and the state after any
  number of applications is within the ranges \<open>tn \<in> [1,4]\<close>, \<open>fn \<in> [1,18]\<close>,
  \<open>mn \<in> [1,60]\<close>.
\<close>

theorem incrementTn_hyperframe_cycle:
  "(incrementTn ^^ (4 * 18 * 60)) initial_time = initial_time
   \<and> (\<forall>k. time_in_range ((incrementTn ^^ k) initial_time))"
proof
  have "time_index ((incrementTn ^^ 4320) initial_time) = 0"
    by (simp add: time_index_funpow initial_time_in_range)
       (simp add: time_index_def initial_time_def)
  then show "(incrementTn ^^ (4 * 18 * 60)) initial_time = initial_time"
    using time_index_zero funpow_incrementTn_in_range [OF initial_time_in_range, of 4320]
    by simp
  show "\<forall>k. time_in_range ((incrementTn ^^ k) initial_time)"
    by (simp add: funpow_incrementTn_in_range initial_time_in_range)
qed

subsection \<open>Length decoding\<close>

text \<open>
  Claim C4. \<open>decodeLength\<close> on a 6-bit argument: \<open>0b000000\<close>, \<open>0b111011\<close> and
  \<open>0b111100\<close> give 0; every value up to \<open>0b010010\<close> gives itself; every value from
  \<open>0b010011\<close> to \<open>0b111010\<close> gives \<open>18 + (v - 18)\<close>; \<open>0b111110\<close> and \<open>0b111111\<close>
  give themselves.
\<close>

theorem decodeLength_table:
  "decodeLength 0 = 0 \<and> decodeLength 59 = 0 \<and> decodeLength 60 = 0
   \<and> (\<forall>v. v \<le> 18 \<longrightarrow> decodeLength v = int v)
   \<and> (\<forall>v. 19 \<le> v \<and> v \<le> 58 \<longrightarrow> decodeLength v = 18 + (int v - 18))
   \<and> decodeLength 62 = 62 \<and> decodeLength 63 = 63"
  by (simp add: decodeLength_def)

theorem decodeLength_table_witness:
  "decodeLength 1 = 1 \<and> decodeLength 18 = 18 \<and> decodeLength 58 = 18 + (58 - 18)"
  using decodeLength_table by simp

subsection \<open>Fill-bit stripping\<close>

lemma pdu_at_last: "pdu_at (xs @ [x]) (size_minus_one (Suc (length xs))) = Some x"
  by (simp add: pdu_at_def size_minus_one_def)

lemma pdu_at_empty: "pdu_at [] (size_minus_one 0) = None"
  by (simp add: pdu_at_def)

lemma resize_drop_last: "resize (xs @ [x]) (size_minus_one (Suc (length xs))) = xs"
  by (simp add: resize_def size_minus_one_def)

lemma remove_trailing_zeros_Nil: "remove_trailing_zeros [] = None"
  by (subst remove_trailing_zeros.simps) (simp add: pdu_at_empty)

lemma remove_trailing_zeros_snoc:
  "remove_trailing_zeros (xs @ [x]) = (if x then Some (xs @ [x]) else remove_trailing_zeros xs)"
  by (subst remove_trailing_zeros.simps) (simp add: pdu_at_last resize_drop_last)

lemma remove_trailing_zeros_eq:
  "remove_trailing_zeros pdu =
     (if True \<in> set pdu then Some (rev (dropWhile (\<lambda>b. \<not> b) (rev pdu))) else None)"
  by (induction pdu rule: rev_induct)
     (auto simp: remove_trailing_zeros_Nil remove_trailing_zeros_snoc)

text \<open>
  Claim C10. With fill-bit stripping enabled, \<open>removeFillBits\<close> returns (every read of
  a bit is in bounds and the loop ends) for every PDU that holds at least one 1 bit,
  and what it returns is the PDU without its trailing 0 bits and without the 1 bit
  before them. A PDU without a 1 bit, the empty PDU or an all-zero one, is outside
  this guarantee: the read at index \<open>size() - 1\<close> is then out of range, for the
  all-zero PDU once the loop has emptied it.
\<close>

theorem removeFillBits_total_on_nonzero:
  "(True \<in> set pdu \<longrightarrow>
      removeFillBits True pdu = Some (butlast (rev (dropWhile (\<lambda>b. \<not> b) (rev pdu)))))
   \<and> (True \<notin> set pdu \<longrightarrow> removeFillBits True pdu = None)"
proof (cases pdu rule: rev_cases)
  case Nil
  then show ?thesis by (simp add: removeFillBits_def pdu_at_empty)
next
  case (snoc xs x)
  show ?thesis
  proof (cases x)
    case True
    with snoc show ?thesis
      by (simp add: removeFillBits_def pdu_at_last resize_drop_last)
  next
    case False
    have "remove_trailing_zeros pdu = remove_trailing_zeros xs"
      using snoc False by (simp add: remove_trailing_zeros_snoc)
    moreover have "True \<in> set xs \<Longrightarrow>
        resize (rev (dropWhile (\<lambda>b. \<not> b) (rev xs)))
          (size_minus_one (length (rev (dropWhile (\<lambda>b. \<not> b) (rev xs)))))
        = butlast (rev (dropWhile (\<lambda>b. \<not> b) (rev xs)))"
    proof -
      assume "True \<in> set xs"
      then have "dropWhile (\<lambda>b. \<not> b) (rev xs) \<noteq> []"
        by (auto simp: dropWhile_eq_Nil_conv)
      then obtain ys y where "rev (dropWhile (\<lambda>b. \<not> b) (rev xs)) = ys @ [y]"
        by (metis rev_is_Nil_conv rev_exhaust)
      then show ?thesis by (simp add: resize_drop_last)
    qed
    ultimately show ?thesis
      using snoc False
      by (simp add: removeFillBits_def pdu_at_last remove_trailing_zeros_eq)
  qed
qed

theorem removeFillBits_total_on_nonzero_witness:
  "removeFillBits True [True, False, True, False, False] = Some [True, False]
   \<and> removeFillBits True [False, True] = Some [False]
   \<and> removeFillBits True [False, False, False] = None
   \<and> removeFillBits True [] = None"
  using removeFillBits_total_on_nonzero [of "[True, False, True, False, False]"]
        removeFillBits_total_on_nonzero [of "[False, True]"]
        removeFillBits_total_on_nonzero [of "[False, False, False]"]
        removeFillBits_total_on_nonzero [of "[]"]
  by simp

subsection \<open>Defragmenter\<close>

text \<open>
  Claim C5. For every address \<open>A\<close> and fragments \<open>f1\<close>, \<open>f2\<close>, whatever the state of the
  defragmenter before: after \<open>start(A)\<close>, \<open>append(f1, A)\<close>, \<open>append(f2, A)\<close>, \<open>getSdu()\<close>
  yields \<open>f1 @ f2\<close> (with the encryption mode and usage marker of \<open>A\<close>); and for every
  address \<open>B\<close> whose SSI differs from that of \<open>A\<close>, \<open>append(x, B)\<close> after \<open>start(A)\<close>
  stops the defragmenter, and \<open>getSdu()\<close> then yields the empty PDU.
\<close>

theorem defrag_contract:
  "defrag_getSdu (defrag_append f2 A (defrag_append f1 A (defrag_start A t d)))
     = (f1 @ f2, Some (encryptionMode A, usageMarker A))
   \<and> (ssi B \<noteq> ssi A \<longrightarrow>
        b_stopped (defrag_append x B (defrag_start A t d))
        \<and> defrag_getSdu (defrag_append x B (defrag_start A t d)) = ([], None))"
  by (simp add: defrag_getSdu_def defrag_append_def defrag_start_def defrag_stop_def)


theorem defrag_contract_witness:
  "defrag_getSdu (defrag_append [True] (zero_address\<lparr>ssi := 2\<rparr>)
      (defrag_start (zero_address\<lparr>ssi := 1\<rparr>) initial_time initial_MacDefrag)) = ([], None)
   \<and> defrag_getSdu (defrag_append [False] (zero_address\<lparr>ssi := 1\<rparr>)
        (defrag_append [True] (zero_address\<lparr>ssi := 1\<rparr>)
          (defrag_start (zero_address\<lparr>ssi := 1\<rparr>) initial_time initial_MacDefrag)))
      = ([True, False], Some (0, 0))"
  using defrag_contract [of "[False]" "zero_address\<lparr>ssi := 1\<rparr>" "[True]" initial_time
      initial_MacDefrag "zero_address\<lparr>ssi := 2\<rparr>" "[True]"]
  by (simp add: zero_address_def)

subsection \<open>Reading fields\<close>

lemma bits_value_snoc: "bits_value (bs @ [b]) = 2 * bits_value bs + (if b then 1 else 0)"
  by (simp add: bits_value_def)

lemma bits_value_bound: "bits_value bs < 2 ^ length bs"
  by (induction bs rule: rev_induct) (auto simp: bits_value_snoc bits_value_def)

lemma getValue_bound: "getValue pdu pos n = Some v \<Longrightarrow> v < 2 ^ n"
proof -
  assume a: "getValue pdu pos n = Some v"
  then have "v = bits_value (take n (drop pos pdu))" and "length (take n (drop pos pdu)) = n"
    by (auto simp: getValue_def split: if_splits)
  then show ?thesis using bits_value_bound [of "take n (drop pos pdu)"] by simp
qed

lemma getValue_in_range: "pos + n \<le> length pdu \<Longrightarrow> \<exists>v. getValue pdu pos n = Some v"
  by (simp add: getValue_def)

subsection \<open>AACH in frame 18\<close>

text \<open>
  Claim C9. For every AACH PDU dissected while the TDMA time has \<open>fn = 18\<close>: whenever
  \<open>pduProcessAach\<close> returns, the downlink usage of the MAC state is \<open>COMMON_CONTROL\<close>,
  whatever the header and field 1 of the PDU hold; and it returns for every PDU of at
  least 8 bits (the header and field 1; an AACH block has 14).
\<close>

theorem pduProcessAach_frame18:
  "fn (m_tetraTime s) = 18 \<Longrightarrow>
     (\<forall>s'. pduProcessAach pdu s = Some s' \<longrightarrow> downlinkUsage (m_macState s') = COMMON_CONTROL)
     \<and> (8 \<le> length pdu \<longrightarrow> (\<exists>s'. pduProcessAach pdu s = Some s'))"
  by (auto simp: pduProcessAach_def set_downlinkUsage_def getValue_def Let_def
           split: if_splits bind_splits)

theorem pduProcessAach_frame18_witness:
  "\<exists>s'. pduProcessAach [True, True, False, False, False, True, False, False,
                         False, False, False, False, False, False]
            ((initial_Mac True)\<lparr>m_tetraTime := \<lparr>tn = 2, fn = 18, mn = 5\<rparr>\<rparr>) = Some s'
        \<and> downlinkUsage (m_macState s') = COMMON_CONTROL"
  using pduProcessAach_frame18 [of "(initial_Mac True)\<lparr>m_tetraTime := \<lparr>tn = 2, fn = 18, mn = 5\<rparr>\<rparr>"
     "[True, True, False, False, False, True, False, False,
                         False, False, False, False, False, False]"]
  by auto

subsection \<open>Ranges of the TDMA time\<close>

lemma pduProcessSync_time:
  assumes "60 \<le> length pdu"
  shows "\<exists>sdu s' v_tn v_fn v_mn. pduProcessSync pdu s = Some (sdu, s')
           \<and> getValue pdu 10 2 = Some v_tn \<and> getValue pdu 12 5 = Some v_fn
           \<and> getValue pdu 17 6 = Some v_mn
           \<and> m_tetraTime s' = (m_tetraTime s)\<lparr>tn := v_tn + 1, fn := v_fn, mn := v_mn\<rparr>"
  using assms by (simp add: pduProcessSync_def getValue_def)

text \<open>
  Claim C2, as amended. \<open>incrementTn\<close> keeps a TDMA time that is within the declared
  ranges within them. \<open>pduProcessSync\<close>, for every PDU of at least 60 bits, returns and
  leaves \<open>tn\<close> in \<open>[1,4]\<close>; it copies the 5-bit frame number and the 6-bit multiframe
  number of the PDU unchecked, so \<open>fn\<close> is in \<open>[0,31]\<close> and \<open>mn\<close> in \<open>[0,63]\<close>, and the
  time is within the declared ranges exactly when the PDU's frame number is in
  \<open>[1,18]\<close> and its multiframe number in \<open>[1,60]\<close>.
\<close>

theorem tetra_time_mutators_range:
  "(time_in_range t \<longrightarrow> time_in_range (incrementTn t))
   \<and> (60 \<le> length pdu \<longrightarrow>
        (\<exists>sdu s' v_fn v_mn. pduProcessSync pdu s = Some (sdu, s')
           \<and> getValue pdu 12 5 = Some v_fn \<and> getValue pdu 17 6 = Some v_mn
           \<and> 1 \<le> tn (m_tetraTime s') \<and> tn (m_tetraTime s') \<le> 4
           \<and> fn (m_tetraTime s') = v_fn \<and> v_fn \<le> 31
           \<and> mn (m_tetraTime s') = v_mn \<and> v_mn \<le> 63
           \<and> time_in_range (m_tetraTime s')
               = (1 \<le> v_fn \<and> v_fn \<le> 18 \<and> 1 \<le> v_mn \<and> v_mn \<le> 60)))"
proof (intro conjI impI)
  assume "time_in_range t"
  then show "time_in_range (incrementTn t)" by (rule incrementTn_in_range)
next
  assume "60 \<le> length pdu"
  from pduProcessSync_time [OF this, of s]
  obtain sdu s' v_tn v_fn v_mn where r: "pduProcessSync pdu s = Some (sdu, s')"
    and g: "getValue pdu 10 2 = Some v_tn" "getValue pdu 12 5 = Some v_fn"
       "getValue pdu 17 6 = Some v_mn"
    and t: "m_tetraTime s' = (m_tetraTime s)\<lparr>tn := v_tn + 1, fn := v_fn, mn := v_mn\<rparr>"
    by blast
  have "v_tn < 4" "v_fn < 32" "v_mn < 64"
    using g getValue_bound [of pdu 10 2 v_tn] getValue_bound [of pdu 12 5 v_fn]
      getValue_bound [of pdu 17 6 v_mn] by simp_all
  then show "\<exists>sdu s' v_fn v_mn. pduProcessSync pdu s = Some (sdu, s')
           \<and> getValue pdu 12 5 = Some v_fn \<and> getValue pdu 17 6 = Some v_mn
           \<and> 1 \<le> tn (m_tetraTime s') \<and> tn (m_tetraTime s') \<le> 4
           \<and> fn (m_tetraTime s') = v_fn \<and> v_fn \<le> 31
           \<and> mn (m_tetraTime s') = v_mn \<and> v_mn \<le> 63
           \<and> time_in_range (m_tetraTime s')
               = (1 \<le> v_fn \<and> v_fn \<le> 18 \<and> 1 \<le> v_mn \<and> v_mn \<le> 60)"
    using r g t by (auto simp: time_in_range_def)
qed

text \<open>
  A SYNC PDU as in the spec's scenario E1 (colour code 5, time slot 1, frame 18,
  multiframe 1), and the rest 0.
\<close>

theorem tetra_time_mutators_range_witness:
  "time_in_range (incrementTn initial_time)
   \<and> (\<exists>sdu s'. pduProcessSync
          ([False, False, False, False] @ [False, False, False, True, False, True]
            @ [False, False] @ [True, False, False, True, False]
            @ [False, False, False, False, False, True] @ replicate 37 False)
          (initial_Mac True) = Some (sdu, s')
        \<and> time_in_range (m_tetraTime s'))"
proof -
  let ?pdu = "[False, False, False, False] @ [False, False, False, True, False, True]
            @ [False, False] @ [True, False, False, True, False]
            @ [False, False, False, False, False, True] @ replicate 37 False"
  have "getValue ?pdu 12 5 = Some 18" "getValue ?pdu 17 6 = Some 1"
    by (simp_all add: getValue_def bits_value_def)
  moreover have "60 \<le> length ?pdu" by simp
  ultimately show ?thesis
    using tetra_time_mutators_range [of initial_time ?pdu "initial_Mac True"]
      initial_time_in_range
    by auto
qed

text \<open>
  Claim C2 as stated fails: a SYNC PDU of 60 zero bits leaves the frame number and the
  multiframe number 0.
\<close>

theorem pduProcessSync_range_counterexample:
  "60 \<le> length (replicate 60 False)
   \<and> map_option (\<lambda>r. m_tetraTime (snd r)) (pduProcessSync (replicate 60 False) (initial_Mac True))
       = Some \<lparr>tn = 1, fn = 0, mn = 0\<rparr>
   \<and> \<not> time_in_range \<lparr>tn = 1, fn = 0, mn = 0\<rparr>"
  by code_simp


subsection \<open>Dissociation loop\<close>

lemma serviceUpperMac_loop_bound:
  "fst (serviceUpperMac_loop ch pduCount v s) \<le> max 1 (32 - pduCount)"
proof (induction ch pduCount v s rule: serviceUpperMac_loop.induct)
  case (1 ch pduCount v s)
  show ?case
  proof (cases "serviceUpperMac_iteration ch v s")
    case None
    then show ?thesis by (subst serviceUpperMac_loop.simps) simp
  next
    case (Some r)
    obtain again v' s' where r: "r = (again, v', s')" by (cases r)
    show ?thesis
    proof (cases "again \<and> pduCount + 1 < 32")
      case True
      have "fst (serviceUpperMac_loop ch (pduCount + 1) v' s') \<le> max 1 (32 - (pduCount + 1))"
        using "1.IH" [OF Some r [symmetric] refl True] .
      then show ?thesis
        using Some r True
        by (subst serviceUpperMac_loop.simps) (auto split: prod.splits)
    next
      case False
      then show ?thesis
        using Some r by (subst serviceUpperMac_loop.simps) auto
    qed
  qed
qed

text \<open>
  Claim C6. For every input PDU and every logical channel, the dissociation loop of
  \<open>serviceUpperMac\<close> runs at most 32 iterations, whether it ends normally or with a
  failed read, however long the chain of MAC-RESOURCE PDUs is.
\<close>

theorem serviceUpperMac_at_most_32_iterations:
  "fst (serviceUpperMac data macLogicalChannel s) \<le> 32"
  using serviceUpperMac_loop_bound [of macLogicalChannel 0
      "\<lparr>v_pdu = data, v_tmSdu = [], v_fragmentedPacketFlag = False, v_pduSizeInMac = 0\<rparr>"
      "s\<lparr>m_macState := (m_macState s)\<lparr>logicalChannel := macLogicalChannel\<rparr>\<rparr>"]
  by (auto simp: serviceUpperMac_def split: prod.splits)

text \<open>
  The cap is what stops the loop on a long chain: of 40 chained MAC-RESOURCE PDUs
  exactly 32 are dissected, and of 10 (160 bits) only 8, since the loop also stops
  when fewer than 40 bits would remain.
\<close>

lemma serviceUpperMac_chain_capped:
  "fst (serviceUpperMac (resource_chain 40) SCH_F (initial_Mac True)) = 32
   \<and> fst (serviceUpperMac (resource_chain 10) SCH_F (initial_Mac True)) = 8"
  by code_simp

subsection \<open>NULL PDU\<close>

lemma pduProcessResource_null:
  "getValue pdu 13 3 = Some 0 \<Longrightarrow> pduProcessResource pdu ch s = Some (([], False, - 1), s)"
  by (simp add: pduProcessResource_def)

lemma signalling_dispatch_null:
  "getValue (v_pdu v) 0 2 = Some 0 \<Longrightarrow> getValue (v_pdu v) 13 3 = Some 0 \<Longrightarrow>
   signalling_dispatch ch v s =
     Some ((True, False), v\<lparr>v_tmSdu := [], v_fragmentedPacketFlag := False, v_pduSizeInMac := - 1\<rparr>, s)"
  by (simp add: signalling_dispatch_def pduProcessResource_null)

lemma serviceUpperMac_iteration_null:
  assumes "ch = STCH \<or> ch = BNCH \<or> ch = SCH_F \<or> ch = SCH_HD"
    and "getValue (v_pdu v) 0 2 = Some 0" and "getValue (v_pdu v) 13 3 = Some 0"
  shows "serviceUpperMac_iteration ch v s =
     Some (False, v\<lparr>v_tmSdu := [], v_fragmentedPacketFlag := False, v_pduSizeInMac := - 1\<rparr>, s)"
  using assms
  by (auto simp: serviceUpperMac_iteration_def upper_mac_dispatch_def signalling_dispatch_null)

text \<open>
  Claim C7. For every MAC-RESOURCE PDU (PDU type \<open>00\<close>) whose 3-bit address type at
  offset 13 is \<open>000\<close>, on a signalling channel: \<open>pduProcessResource\<close> returns the empty
  TM-SDU, sets \<open>pduSizeInMac\<close> to \<open>-1\<close> and leaves the state of the MAC layer as it was
  (no other field of the PDU is read or stored, no call to the LLC is made); the
  iteration of the loop that meets it, the first or a later one (whatever the loop
  variables and the counter hold), is the last; and \<open>serviceUpperMac\<close> on such a PDU
  runs one iteration and changes nothing but the logical channel of the MAC state.
\<close>

theorem null_pdu_suppressed:
  assumes "getValue pdu 0 2 = Some 0" and "getValue pdu 13 3 = Some 0"
    and "ch = STCH \<or> ch = BNCH \<or> ch = SCH_F \<or> ch = SCH_HD"
  shows "pduProcessResource pdu ch s = Some (([], False, - 1), s)
    \<and> serviceUpperMac_iteration ch (v\<lparr>v_pdu := pdu\<rparr>) s =
         Some (False, v\<lparr>v_pdu := pdu, v_tmSdu := [], v_fragmentedPacketFlag := False,
                        v_pduSizeInMac := - 1\<rparr>, s)
    \<and> serviceUpperMac_loop ch pduCount (v\<lparr>v_pdu := pdu\<rparr>) s =
         (1, Some (v\<lparr>v_pdu := pdu, v_tmSdu := [], v_fragmentedPacketFlag := False,
                        v_pduSizeInMac := - 1\<rparr>, s))
    \<and> serviceUpperMac pdu ch s =
         (1, Some (s\<lparr>m_macState := (m_macState s)\<lparr>logicalChannel := ch\<rparr>\<rparr>))"
proof (intro conjI)
  show "pduProcessResource pdu ch s = Some (([], False, - 1), s)"
    using assms(2) by (rule pduProcessResource_null)
next
  show it: "serviceUpperMac_iteration ch (v\<lparr>v_pdu := pdu\<rparr>) s =
         Some (False, v\<lparr>v_pdu := pdu, v_tmSdu := [], v_fragmentedPacketFlag := False,
                        v_pduSizeInMac := - 1\<rparr>, s)"
    using assms serviceUpperMac_iteration_null [of ch "v\<lparr>v_pdu := pdu\<rparr>" s] by simp
  show "serviceUpperMac_loop ch pduCount (v\<lparr>v_pdu := pdu\<rparr>) s =
         (1, Some (v\<lparr>v_pdu := pdu, v_tmSdu := [], v_fragmentedPacketFlag := False,
                        v_pduSizeInMac := - 1\<rparr>, s))"
    by (subst serviceUpperMac_loop.simps) (simp add: it)
next
  let ?v = "\<lparr>v_pdu = pdu, v_tmSdu = [], v_fragmentedPacketFlag = False, v_pduSizeInMac = 0\<rparr>"
  let ?s = "s\<lparr>m_macState := (m_macState s)\<lparr>logicalChannel := ch\<rparr>\<rparr>"
  have "serviceUpperMac_iteration ch ?v ?s =
     Some (False, ?v\<lparr>v_tmSdu := [], v_fragmentedPacketFlag := False, v_pduSizeInMac := - 1\<rparr>, ?s)"
    using assms serviceUpperMac_iteration_null [of ch ?v ?s] by simp
  then show "serviceUpperMac pdu ch s = (1, Some ?s)"
    by (simp add: serviceUpperMac_def serviceUpperMac_loop.simps [of ch 0 ?v ?s])
qed

theorem null_pdu_suppressed_witness:
  "pduProcessResource
      ([False, False, False, False, False, False, False, False, False, False, False, True, False,
        False, False, False, True] @ replicate 107 False) SCH_HD (initial_Mac True)
     = Some (([], False, - 1), initial_Mac True)
   \<and> serviceUpperMac_loop SCH_HD 7
        \<lparr>v_pdu = [False, False, False, False, False, False, False, False, False, False, False,
                  True, False, False, False, False, True] @ replicate 107 False,
         v_tmSdu = [True], v_fragmentedPacketFlag = False, v_pduSizeInMac = 16\<rparr>
        (initial_Mac True)
     = (1, Some (\<lparr>v_pdu = [False, False, False, False, False, False, False, False, False, False,
                     False, True, False, False, False, False, True] @ replicate 107 False,
                   v_tmSdu = [], v_fragmentedPacketFlag = False, v_pduSizeInMac = - 1\<rparr>,
                 initial_Mac True))
   \<and> serviceUpperMac
      ([False, False, False, False, False, False, False, False, False, False, False, True, False,
        False, False, False, True] @ replicate 107 False) SCH_HD (initial_Mac True)
     = (1, Some ((initial_Mac True)
          \<lparr>m_macState := (m_macState (initial_Mac True))\<lparr>logicalChannel := SCH_HD\<rparr>\<rparr>))"
proof -
  let ?pdu = "[False, False, False, False, False, False, False, False, False, False, False, True,
        False, False, False, False, True] @ replicate 107 False"
  have "getValue ?pdu 0 2 = Some 0" "getValue ?pdu 13 3 = Some 0"
    by (simp_all add: getValue_def bits_value_def)
  then show ?thesis
    using null_pdu_suppressed [of ?pdu SCH_HD "initial_Mac True"
        "\<lparr>v_pdu = [], v_tmSdu = [True], v_fragmentedPacketFlag = False, v_pduSizeInMac = 16\<rparr>" 7]
    by simp
qed

subsection \<open>Encryption mode of a reassembled TM-SDU\<close>

lemma defrag_append_macAddress: "macAddress (defrag_append sdu a d) = macAddress d"
  by (simp add: defrag_append_def defrag_stop_def)

lemma defrag_appends_macAddress: "macAddress (defrag_appends fs d) = macAddress d"
  unfolding defrag_appends_def
  by (induction fs arbitrary: d) (auto simp: defrag_append_macAddress)

lemma defrag_reassembly_macAddress:
  "macAddress (defrag_appends fs (defrag_start A t d)) = A"
  by (simp add: defrag_appends_macAddress defrag_start_def)

lemma macend_reassemble_nonempty:
  assumes "macend_reassemble pdu pos s = (sdu, s')" and "sdu \<noteq> []"
  shows "m_macAddress s'
           = (m_macAddress s)\<lparr>encryptionMode := encryptionMode (macAddress (m_macDefrag s))\<rparr>
       \<and> m_usageMarkerEncryptionMode s'
           = (m_usageMarkerEncryptionMode s)
               (usageMarker (macAddress (m_macDefrag s))
                  := encryptionMode (macAddress (m_macDefrag s)))
       \<and> m_tetraTime s' = m_tetraTime s \<and> llc_service s' = llc_service s"
  using assms unfolding macend_reassemble_def
  by (auto simp: Let_def defrag_getSdu_def defrag_append_macAddress split: if_splits)

lemma pduProcessMacEnd_cases:
  "pduProcessMacEnd pdu s = Some r \<Longrightarrow>
     r = ([], s) \<or> (\<exists>pdu' pos. r = macend_reassemble pdu' pos s)"
  unfolding pduProcessMacEnd_def
  by (auto simp: Let_def split: bind_splits if_splits)

lemma pduProcessMacEnd_nonempty:
  assumes "pduProcessMacEnd pdu s = Some (sdu, s')" and "sdu \<noteq> []"
  shows "m_macAddress s'
           = (m_macAddress s)\<lparr>encryptionMode := encryptionMode (macAddress (m_macDefrag s))\<rparr>
       \<and> m_usageMarkerEncryptionMode s'
           = (m_usageMarkerEncryptionMode s)
               (usageMarker (macAddress (m_macDefrag s))
                  := encryptionMode (macAddress (m_macDefrag s)))
       \<and> m_tetraTime s' = m_tetraTime s \<and> llc_service s' = llc_service s"
proof -
  from pduProcessMacEnd_cases [OF assms(1)] assms(2)
  obtain pdu' pos where "macend_reassemble pdu' pos s = (sdu, s')" by auto
  from macend_reassemble_nonempty [OF this assms(2)] show ?thesis .
qed

lemma signalling_dispatch_mac_end:
  assumes "getValue (v_pdu v) 0 2 = Some 1" "getValue (v_pdu v) 2 1 = Some 1"
  shows "signalling_dispatch ch v s =
     (case pduProcessMacEnd (v_pdu v) s of
        None \<Rightarrow> None
      | Some (sdu, s') \<Rightarrow> Some ((True, False), v\<lparr>v_tmSdu := sdu\<rparr>, s'))"
  using assms by (simp add: signalling_dispatch_def split: option.splits)

lemma serviceUpperMac_iteration_mac_end:
  assumes ch: "ch = STCH \<or> ch = BNCH \<or> ch = SCH_F \<or> ch = SCH_HD"
    and ty: "getValue (v_pdu v) 0 2 = Some 1" "getValue (v_pdu v) 2 1 = Some 1"
    and it: "serviceUpperMac_iteration ch v s = Some (again, v', s')"
  shows "\<exists>s1. pduProcessMacEnd (v_pdu v) s = Some (v_tmSdu v', s1)
           \<and> s' = (if v_tmSdu v' \<noteq> []
                    then s1\<lparr>llc_service := llc_service s1 @
                            [(v_tmSdu v', ch, m_tetraTime s1, m_macAddress s1)]\<rparr>
                    else s1)"
proof -
  have d: "upper_mac_dispatch ch v s =
     (case pduProcessMacEnd (v_pdu v) s of
        None \<Rightarrow> None
      | Some (sdu, s') \<Rightarrow> Some ((True, False), v\<lparr>v_tmSdu := sdu\<rparr>, s'))"
    using ch by (auto simp: upper_mac_dispatch_def signalling_dispatch_mac_end [OF ty])
  show ?thesis
  proof (cases "pduProcessMacEnd (v_pdu v) s")
    case None
    then show ?thesis using it by (simp add: serviceUpperMac_iteration_def d)
  next
    case (Some r)
    obtain sdu s1 where r: "r = (sdu, s1)" by (cases r)
    show ?thesis
      using it Some r
      by (auto simp: serviceUpperMac_iteration_def d Let_def split: if_splits)
  qed
qed

text \<open>
  Claim C3, as amended. For every fragment reassembly (\<open>start\<close> with the address \<open>A\<close>,
  then zero or more \<open>append\<close>s) completed by a MAC-END on a signalling channel that
  yields a non-empty TM-SDU, the TM-SDU is handed to the LLC with the current MAC
  address in which the encryption mode is that of \<open>A\<close>, the mode recorded at the start
  of the fragmentation; it overrides the encryption mode in effect when the MAC-END
  arrives, and it is also stored for the usage marker of \<open>A\<close>.
\<close>

theorem mac_end_delivers_start_encryption_mode:
  assumes reassembly: "m_macDefrag s = defrag_appends fs (defrag_start A t d)"
    and ch: "ch = STCH \<or> ch = BNCH \<or> ch = SCH_F \<or> ch = SCH_HD"
    and mac_end: "getValue (v_pdu v) 0 2 = Some 1" "getValue (v_pdu v) 2 1 = Some 1"
    and it: "serviceUpperMac_iteration ch v s = Some (again, v', s')"
    and nonempty: "v_tmSdu v' \<noteq> []"
  shows "llc_service s' = llc_service s @
           [(v_tmSdu v', ch, m_tetraTime s,
             (m_macAddress s)\<lparr>encryptionMode := encryptionMode A\<rparr>)]
       \<and> encryptionMode (m_macAddress s') = encryptionMode A
       \<and> m_usageMarkerEncryptionMode s' (usageMarker A) = encryptionMode A"
proof -
  obtain s1 where e: "pduProcessMacEnd (v_pdu v) s = Some (v_tmSdu v', s1)"
    and s': "s' = s1\<lparr>llc_service := llc_service s1 @
                            [(v_tmSdu v', ch, m_tetraTime s1, m_macAddress s1)]\<rparr>"
    using serviceUpperMac_iteration_mac_end [OF ch mac_end it] nonempty by auto
  have A: "macAddress (m_macDefrag s) = A"
    by (simp add: reassembly defrag_reassembly_macAddress)
  show ?thesis
    using pduProcessMacEnd_nonempty [OF e nonempty] by (simp add: s' A)
qed

theorem mac_end_delivers_start_encryption_mode_witness:
  "map_option (\<lambda>(again, v', s'). map (\<lambda>(sdu, ch, t, a). (sdu, encryptionMode a)) (llc_service s'))
     (serviceUpperMac_iteration SCH_HD
        \<lparr>v_pdu = mac_end_pdu, v_tmSdu = [], v_fragmentedPacketFlag = False, v_pduSizeInMac = 0\<rparr>
        mac_before_end)
   = Some [([True, True, False, False, True, False, True, True, True, False, False, True], 1)]"
proof -
  let ?v = "\<lparr>v_pdu = mac_end_pdu, v_tmSdu = [], v_fragmentedPacketFlag = False,
             v_pduSizeInMac = 0\<rparr>"
  have sdu: "map_option (\<lambda>(again, v', s'). v_tmSdu v')
               (serviceUpperMac_iteration SCH_HD ?v mac_before_end)
             = Some [True, True, False, False, True, False, True, True, True, False, False, True]"
    by code_simp
  then obtain again v' s' where
    it: "serviceUpperMac_iteration SCH_HD ?v mac_before_end = Some (again, v', s')"
    and tm: "v_tmSdu v' = [True, True, False, False, True, False, True, True, True, False, False, True]"
    by (auto split: prod.splits)
  have ty: "getValue (v_pdu ?v) 0 2 = Some 1" "getValue (v_pdu ?v) 2 1 = Some 1"
    by (simp_all add: mac_end_pdu_def getValue_def bits_value_def)
  have re: "m_macDefrag mac_before_end
      = defrag_appends [([True, True, False, False, True], fragment_address)]
          (defrag_start fragment_address initial_time initial_MacDefrag)"
    by (simp add: mac_before_end_def initial_Mac_def)
  have ne: "v_tmSdu v' \<noteq> []" by (simp add: tm)
  have "llc_service s' = llc_service mac_before_end @
           [(v_tmSdu v', SCH_HD, m_tetraTime mac_before_end,
             (m_macAddress mac_before_end)\<lparr>encryptionMode := encryptionMode fragment_address\<rparr>)]"
    using mac_end_delivers_start_encryption_mode [OF re _ ty it ne] by simp
  then have "map (\<lambda>(sdu, ch, t, a). (sdu, encryptionMode a)) (llc_service s')
      = [([True, True, False, False, True, False, True, True, True, False, False, True], 1)]"
    by (simp add: tm mac_before_end_def initial_Mac_def fragment_address_def)
  then show ?thesis
    by (simp add: it)
qed

text \<open>
  Claim C3 as stated fails. A fragmentation starts with encryption mode 1; a
  MAC-RESOURCE for another event label then sets the current encryption mode to 2; the
  MAC-END that follows delivers the reassembled TM-SDU with encryption mode 1, not with
  the mode 2 in effect at the MAC-END.
\<close>

theorem mac_end_encryption_mode_counterexample:
  "map_option (\<lambda>s. encryptionMode (m_macAddress s))
      (then_serviceUpperMac event_label_pdu SCH_HD
        (then_serviceUpperMac frag_start_pdu SCH_HD (Some (initial_Mac True)))) = Some 2
   \<and> map_option (\<lambda>s. map (\<lambda>(sdu, ch, t, a). (sdu, encryptionMode a)) (llc_service s))
      (then_serviceUpperMac mac_end_pdu SCH_HD
        (then_serviceUpperMac event_label_pdu SCH_HD
          (then_serviceUpperMac frag_start_pdu SCH_HD (Some (initial_Mac True)))))
     = Some [(replicate 11 True, 2),
             ([True, True, False, False, True, False, True, True, True, False, False, True], 1)]"
  by code_simp


subsection \<open>Burst synchronizer: the grace window\<close>

lemma processFrame_fields:
  "m_frame (processFrame lower d) = m_frame d
   \<and> m_bIsSynchronized (processFrame lower d) = m_bIsSynchronized d
   \<and> m_syncBitCounter (processFrame lower d) = m_syncBitCounter d
   \<and> rx_count (processFrame lower d) = rx_count d
   \<and> processFrame_at (processFrame lower d) = processFrame_at d @ [rx_count d]"
  by (simp add: processFrame_def Let_def split: prod.splits)

lemma rxSymbol_filling:
  "length (m_frame d) + 1 < 510 \<Longrightarrow>
   rxSymbol lower symb d = (False, d\<lparr>m_frame := m_frame d @ [symb], rx_count := rx_count d + 1\<rparr>)"
  by (simp add: rxSymbol_def FRAME_LEN_def Let_def)

lemma rxSymbol_full:
  "\<not> length (m_frame d) + 1 < 510 \<Longrightarrow>
   snd (rxSymbol lower symb d)
     = rxSymbol_frame lower (fst (rxSymbol lower symb d))
         (d\<lparr>m_frame := m_frame d @ [symb], rx_count := rx_count d + 1\<rparr>)"
  by (simp add: rxSymbol_def FRAME_LEN_def Let_def)

lemma rxSymbol_frame_unmatched:
  "\<not> length (m_frame d) < 510 \<Longrightarrow>
   sync_view (rxSymbol_frame lower False d)
     = (if m_bIsSynchronized d \<and> m_syncBitCounter d mod 510 = 0
        then (0, decrement64 (m_syncBitCounter d) \<noteq> 0, decrement64 (m_syncBitCounter d),
              rx_count d, processFrame_at d @ [rx_count d])
        else (length (m_frame d) - 1,
              m_bIsSynchronized d \<and> decrement64 (m_syncBitCounter d) \<noteq> 0,
              decrement64 (m_syncBitCounter d), rx_count d, processFrame_at d))"
  by (simp add: rxSymbol_frame_def Let_def sync_view_def processFrame_fields)

lemma sync_view_rxSymbol:
  assumes "\<not> fst (rxSymbol lower symb d)"
  shows "sync_view (snd (rxSymbol lower symb d)) = unmatched_step (sync_view d)"
proof (cases "length (m_frame d) + 1 < 510")
  case True
  then show ?thesis by (simp add: rxSymbol_filling sync_view_def)
next
  case False
  let ?d1 = "d\<lparr>m_frame := m_frame d @ [symb], rx_count := rx_count d + 1\<rparr>"
  have "snd (rxSymbol lower symb d) = rxSymbol_frame lower False ?d1"
    using rxSymbol_full [OF False] assms by simp
  moreover have "\<not> length (m_frame ?d1) < 510" using False by simp
  ultimately have "sync_view (snd (rxSymbol lower symb d))
     = (if m_bIsSynchronized ?d1 \<and> m_syncBitCounter ?d1 mod 510 = 0
        then (0, decrement64 (m_syncBitCounter ?d1) \<noteq> 0, decrement64 (m_syncBitCounter ?d1),
              rx_count ?d1, processFrame_at ?d1 @ [rx_count ?d1])
        else (length (m_frame ?d1) - 1,
              m_bIsSynchronized ?d1 \<and> decrement64 (m_syncBitCounter ?d1) \<noteq> 0,
              decrement64 (m_syncBitCounter ?d1), rx_count ?d1, processFrame_at ?d1))"
    using rxSymbol_frame_unmatched [of ?d1 lower] by simp
  then show ?thesis using False by (simp add: sync_view_def)
qed

lemma sync_view_rx_symbols:
  "\<not> frame_found lower symbs d \<Longrightarrow>
   sync_view (rx_symbols lower symbs d) = (unmatched_step ^^ length symbs) (sync_view d)"
proof (induction symbs arbitrary: d)
  case Nil
  then show ?case by simp
next
  case (Cons symb symbs)
  then show ?case
    by (simp add: sync_view_rxSymbol funpow_swap1)
qed

lemma fill_steps:
  "len + j \<le> 509 \<Longrightarrow>
   (unmatched_step ^^ j) (len, synced, c, n, calls) = (len + j, synced, c, n + j, calls)"
  by (induction j) auto

lemma slide_mod:
  assumes "j < c mod 510"
  shows "(c - j) mod 510 \<noteq> (0::nat)"
proof -
  have c: "c = 510 * (c div 510) + c mod 510"
    using mult_div_mod_eq [of 510 c] by simp
  have "c - j = 510 * (c div 510) + (c mod 510 - j)"
    using assms c by linarith
  then have "(c - j) mod 510 = (c mod 510 - j) mod 510"
    by (metis mod_mult_self4)
  moreover have "c mod 510 - j < 510"
    using mod_less_divisor [of 510 c] by linarith
  ultimately show ?thesis using assms by simp
qed


lemma slide_steps:
  "j \<le> c mod 510 \<Longrightarrow> j < c \<Longrightarrow>
   (unmatched_step ^^ j) (509, True, c, n, calls) = (509, True, c - j, n + j, calls)"
proof (induction j)
  case 0
  then show ?case by simp
next
  case (Suc j)
  then have "(c - j) mod 510 \<noteq> 0" "c - j \<noteq> 0" "c - j - 1 \<noteq> 0"
    using slide_mod [of j c] by auto
  with Suc show ?case
    by (simp add: decrement64_def)
qed

lemma process_step:
  "c mod 510 = 0 \<Longrightarrow> 1 < c \<Longrightarrow>
   unmatched_step (509, True, c, n, calls) = (0, True, c - 1, n + 1, calls @ [n + 1])"
  by (auto simp: decrement64_def)

lemma funpow_1019: "(f ^^ 1019) x = f ((f ^^ 509) ((f ^^ 509) x))"
proof -
  have e1: "(f ^^ (509 + 509)) x = (f ^^ 509) ((f ^^ 509) x)"
    by (simp only: funpow_add o_apply)
  have e2: "(f ^^ (Suc 1018)) x = f ((f ^^ 1018) x)"
    by (simp only: funpow.simps o_apply)
  have n2: "Suc 1018 = 1019" by simp
  have "(509 + 509 :: nat) = 1018" by simp
  then show ?thesis
    unfolding n2 [symmetric] e2 using e1 by (simp only:)
qed

lemma cycle_steps:
  assumes "c mod 510 = 509" "1019 \<le> c"
  shows "(unmatched_step ^^ 1019) (0, True, c, n, calls)
           = (0, True, c - 510, n + 1019, calls @ [n + 1019])"
proof -
  have a: "(unmatched_step ^^ 509) (0, True, c, n, calls) = (509, True, c, n + 509, calls)"
    using fill_steps [of 0 509 True c n calls] by simp
  have b: "(unmatched_step ^^ 509) (509, True, c, n + 509, calls)
             = (509, True, c - 509, n + 1018, calls)"
    using slide_steps [of 509 c "n + 509" calls] assms by simp
  have "c = 510 * (c div 510) + 509"
    using assms(1) mult_div_mod_eq [of 510 c] by simp
  then have "c - 509 = 510 * (c div 510)" by linarith
  then have "(c - 509) mod 510 = 0" by simp
  then have c: "unmatched_step (509, True, c - 509, n + 1018, calls)
             = (0, True, c - 510, n + 1019, calls @ [n + 1019])"
    using process_step [of "c - 509" "n + 1018" calls] assms by simp
  show ?thesis by (simp only: funpow_1019 a b c)
qed


lemma grace_counter:
  assumes "k \<le> 49"
  shows "(25499 - 510 * k) mod 510 = (509::nat)"
proof -
  have "25499 - 510 * k = 510 * (49 - k) + 509" using assms by linarith
  then show ?thesis by simp
qed

lemma cycles_steps:
  "k \<le> 49 \<Longrightarrow>
   (unmatched_step ^^ (1019 * k)) (0, True, 25499, n, calls)
     = (0, True, 25499 - 510 * k, n + 1019 * k,
        calls @ map (\<lambda>i. n + 1019 * i) [1..<Suc k])"
proof (induction k)
  case 0
  then show ?case by simp
next
  case (Suc k)
  then have k: "k \<le> 49" "k \<le> 48" by simp_all
  have "(unmatched_step ^^ (1019 * Suc k)) (0, True, 25499, n, calls)
      = (unmatched_step ^^ 1019) ((unmatched_step ^^ (1019 * k)) (0, True, 25499, n, calls))"
    using funpow_add [of 1019 "1019 * k" unmatched_step] by simp
  also have "\<dots> = (unmatched_step ^^ 1019)
      (0, True, 25499 - 510 * k, n + 1019 * k, calls @ map (\<lambda>i. n + 1019 * i) [1..<Suc k])"
    using Suc.IH k by simp
  also have "\<dots> = (0, True, 25499 - 510 * k - 510, n + 1019 * k + 1019,
      (calls @ map (\<lambda>i. n + 1019 * i) [1..<Suc k]) @ [n + 1019 * k + 1019])"
  proof (rule cycle_steps)
    show "(25499 - 510 * k) mod 510 = 509" using grace_counter k by simp
    show "1019 \<le> 25499 - 510 * k" using k by linarith
  qed
  finally show ?case by simp
qed

lemma partial_cycle:
  assumes "c mod 510 = 509" and "r < 1019" and "r < 509 + c"
  shows "\<exists>len c'. (unmatched_step ^^ r) (0, True, c, n, calls) = (len, True, c', n + r, calls)"
proof (cases "r \<le> 509")
  case True
  then show ?thesis using fill_steps [of 0 r True c n calls] by simp
next
  case False
  define j where "j = r - 509"
  have r: "r = j + 509" and j: "j \<le> 509" "j < c" using False assms j_def by simp_all
  have "(unmatched_step ^^ r) (0, True, c, n, calls)
      = (unmatched_step ^^ j) ((unmatched_step ^^ 509) (0, True, c, n, calls))"
    unfolding r by (simp only: funpow_add o_apply)
  also have "\<dots> = (unmatched_step ^^ j) (509, True, c, n + 509, calls)"
    using fill_steps [of 0 509 True c n calls] by simp
  also have "\<dots> = (509, True, c - j, n + 509 + j, calls)"
    using slide_steps [of j c "n + 509" calls] j assms(1) by simp
  finally show ?thesis by (simp add: r)
qed

lemma unsynchronized_steps:
  "\<exists>len' c'. (unmatched_step ^^ j) (len, False, c, n, calls) = (len', False, c', n + j, calls)"
proof (induction j)
  case 0
  then show ?case by simp
next
  case (Suc j)
  then obtain len' c' where
    "(unmatched_step ^^ j) (len, False, c, n, calls) = (len', False, c', n + j, calls)"
    by blast
  then show ?case by simp
qed

lemma last_cycle_steps:
  "(unmatched_step ^^ 1018) (0, True, 509, n, calls) = (509, False, 0, n + 1018, calls)"
proof -
  have e: "(f ^^ 1018) x = f ((f ^^ 508) ((f ^^ 509) x))" for f :: "sync_view \<Rightarrow> sync_view" and x
  proof -
    have "(f ^^ Suc (508 + 509)) x = f ((f ^^ 508) ((f ^^ 509) x))"
      by (simp only: funpow.simps funpow_add o_apply)
    moreover have "Suc (508 + 509) = 1018" by simp
    ultimately show ?thesis by (simp only:)
  qed
  have a: "(unmatched_step ^^ 509) (0, True, 509, n, calls) = (509, True, 509, n + 509, calls)"
    using fill_steps [of 0 509 True 509 n calls] by simp
  have b: "(unmatched_step ^^ 508) (509, True, 509, n + 509, calls)
             = (509, True, 1, n + 1017, calls)"
    using slide_steps [of 508 509 "n + 509" calls] by simp
  have c: "unmatched_step (509, True, 1, n + 1017, calls) = (509, False, 0, n + 1018, calls)"
    by (simp add: decrement64_def)
  show ?thesis by (simp only: e a b c)
qed

lemma grace_window_view:
  "\<exists>len c n'. (unmatched_step ^^ m) (0, True, 25499, n, calls)
     = (len, m < 49 * 1019 + 1018, c, n',
        calls @ map (\<lambda>i. n + 1019 * i) [1..<Suc (min 49 (m div 1019))])"
proof (cases "m div 1019 < 49")
  case True
  define q where "q = m div 1019"
  define r where "r = m mod 1019"
  have m: "m = r + 1019 * q" and r: "r < 1019" and q: "q \<le> 48"
    using True by (simp_all add: q_def r_def)
  have "(unmatched_step ^^ m) (0, True, 25499, n, calls)
      = (unmatched_step ^^ r) ((unmatched_step ^^ (1019 * q)) (0, True, 25499, n, calls))"
    unfolding m by (simp only: funpow_add o_apply)
  also have "\<dots> = (unmatched_step ^^ r)
      (0, True, 25499 - 510 * q, n + 1019 * q, calls @ map (\<lambda>i. n + 1019 * i) [1..<Suc q])"
    using cycles_steps [of q n calls] q by simp
  finally have e: "(unmatched_step ^^ m) (0, True, 25499, n, calls) = (unmatched_step ^^ r)
      (0, True, 25499 - 510 * q, n + 1019 * q, calls @ map (\<lambda>i. n + 1019 * i) [1..<Suc q])" .
  have "\<exists>len c'. (unmatched_step ^^ r)
      (0, True, 25499 - 510 * q, n + 1019 * q, calls @ map (\<lambda>i. n + 1019 * i) [1..<Suc q])
      = (len, True, c', n + 1019 * q + r, calls @ map (\<lambda>i. n + 1019 * i) [1..<Suc q])"
  proof (rule partial_cycle)
    show "(25499 - 510 * q) mod 510 = 509" using grace_counter q by simp
    show "r < 1019" by (rule r)
    show "r < 509 + (25499 - 510 * q)" using r q by linarith
  qed
  moreover have "m < 49 * 1019 + 1018" using m r q by linarith
  moreover have "min 49 (m div 1019) = q" using q by (simp add: q_def)
  ultimately show ?thesis using e by auto
next
  case False
  define m' where "m' = m - 1019 * 49"
  have "1019 * 49 \<le> m" using False by linarith
  then have m: "m = m' + 1019 * 49" by (simp add: m'_def)
  have "(unmatched_step ^^ m) (0, True, 25499, n, calls)
      = (unmatched_step ^^ m') ((unmatched_step ^^ (1019 * 49)) (0, True, 25499, n, calls))"
    unfolding m by (simp only: funpow_add o_apply)
  also have "\<dots> = (unmatched_step ^^ m')
      (0, True, 509, n + 1019 * 49, calls @ map (\<lambda>i. n + 1019 * i) [1..<Suc 49])"
    using cycles_steps [of 49 n calls] by simp
  finally have e: "(unmatched_step ^^ m) (0, True, 25499, n, calls) = (unmatched_step ^^ m')
      (0, True, 509, n + 1019 * 49, calls @ map (\<lambda>i. n + 1019 * i) [1..<Suc 49])" .
  have q: "min 49 (m div 1019) = 49" using False by simp
  show ?thesis
  proof (cases "m' < 1018")
    case True
    have "\<exists>len c'. (unmatched_step ^^ m')
        (0, True, 509, n + 1019 * 49, calls @ map (\<lambda>i. n + 1019 * i) [1..<Suc 49])
        = (len, True, c', n + 1019 * 49 + m', calls @ map (\<lambda>i. n + 1019 * i) [1..<Suc 49])"
      using True by (intro partial_cycle) simp_all
    moreover have "m < 49 * 1019 + 1018" using True m by linarith
    ultimately show ?thesis using e q by auto
  next
    case False
    define j where "j = m' - 1018"
    have m': "m' = j + 1018" using False by (simp add: j_def)
    have "(unmatched_step ^^ m')
        (0, True, 509, n + 1019 * 49, calls @ map (\<lambda>i. n + 1019 * i) [1..<Suc 49])
      = (unmatched_step ^^ j) ((unmatched_step ^^ 1018)
        (0, True, 509, n + 1019 * 49, calls @ map (\<lambda>i. n + 1019 * i) [1..<Suc 49]))"
      unfolding m' by (simp only: funpow_add o_apply)
    also have "\<dots> = (unmatched_step ^^ j)
        (509, False, 0, n + 1019 * 49 + 1018, calls @ map (\<lambda>i. n + 1019 * i) [1..<Suc 49])"
      by (simp only: last_cycle_steps)
    finally have "\<exists>len c'. (unmatched_step ^^ m')
        (0, True, 509, n + 1019 * 49, calls @ map (\<lambda>i. n + 1019 * i) [1..<Suc 49])
      = (len, False, c', n + 1019 * 49 + 1018 + j,
         calls @ map (\<lambda>i. n + 1019 * i) [1..<Suc 49])"
      using unsynchronized_steps [of j 509 0 "n + 1019 * 49 + 1018"
          "calls @ map (\<lambda>i. n + 1019 * i) [1..<Suc 49]"]
      by simp
    moreover have "\<not> m < 49 * 1019 + 1018" using False m by linarith
    ultimately show ?thesis using e q by auto
  qed
qed

text \<open>
  Claim C1, as the code has it. In the state a matched burst leaves (the frame buffer
  empty, the synchronizer set, the counter at \<open>510 * 50 - 1\<close> after the decrement of
  the matching call), for every further input in which no call of \<open>rxSymbol\<close> finds
  the training sequence: \<^verbatim>\<open>processFrame\<close> is called once every 1019 symbols, not every
  510, and 49 times in all, not 50; the synchronizer is set until 49 * 1019 + 1018
  symbols have come and not set from then on. The counter is not decremented while
  the frame buffer fills again (the early return of \<open>rxSymbol\<close>), so two burst lengths
  less one pass between two calls.
\<close>

theorem grace_window_processFrame_calls:
  assumes "m_frame d = []" and "m_bIsSynchronized d"
    and "m_syncBitCounter d = FRAME_LEN * 50 - 1"
    and "\<not> frame_found serviceLowerMac symbs d"
  shows "processFrame_at (rx_symbols serviceLowerMac symbs d)
           = processFrame_at d
             @ map (\<lambda>k. rx_count d + 1019 * k) [1..<Suc (min 49 (length symbs div 1019))]
       \<and> m_bIsSynchronized (rx_symbols serviceLowerMac symbs d)
           = (length symbs < 49 * 1019 + 1018)"
proof -
  have "sync_view d = (0, True, 25499, rx_count d, processFrame_at d)"
    using assms(1-3) by (simp add: sync_view_def FRAME_LEN_def)
  then have "sync_view (rx_symbols serviceLowerMac symbs d)
      = (unmatched_step ^^ length symbs) (0, True, 25499, rx_count d, processFrame_at d)"
    using sync_view_rx_symbols [OF assms(4)] by simp
  then show ?thesis
    using grace_window_view [of "length symbs" "rx_count d" "processFrame_at d"]
    by (auto simp: sync_view_def)
qed


lemma score_fold_zero:
  "(\<And>idx. idx < n \<Longrightarrow> g idx = 0) \<Longrightarrow>
   fold (\<lambda>idx errors. (errors + g idx) mod 2 ^ 32) [0..<n] (0::nat) = 0"
  by (induction n) simp_all

lemma score_at_pattern:
  "patternAtPositionScore (pre @ pattern @ post) pattern (length pre) = 0"
  unfolding patternAtPositionScore_def
  by (rule score_fold_zero) (simp add: nth_append)

lemma score_on_zeros:
  assumes "\<And>idx. idx < length pattern \<Longrightarrow> data ! (position + idx) = 0"
  shows "patternAtPositionScore data pattern position
           = fold (\<lambda>idx errors. (errors + unat (pattern ! idx)) mod 2 ^ 32) [0..<length pattern] 0"
  unfolding patternAtPositionScore_def
  by (rule fold_cong) (simp_all add: assms)

lemma begin_weight:
  "fold (\<lambda>idx errors. (errors + unat (NORMAL_TRAINING_SEQ_3_BEGIN ! idx)) mod 2 ^ 32)
     [0..<length NORMAL_TRAINING_SEQ_3_BEGIN] 0 = 6"
  by (simp add: NORMAL_TRAINING_SEQ_3_BEGIN_def upt_rec)

lemma matched_burst_scores:
  "patternAtPositionScore matched_burst NORMAL_TRAINING_SEQ_3_BEGIN 0 = 0
   \<and> patternAtPositionScore matched_burst NORMAL_TRAINING_SEQ_3_END 500 = 0"
proof
  show "patternAtPositionScore matched_burst NORMAL_TRAINING_SEQ_3_BEGIN 0 = 0"
    using score_at_pattern [of "[]" NORMAL_TRAINING_SEQ_3_BEGIN
        "replicate 488 0 @ NORMAL_TRAINING_SEQ_3_END"]
    by (simp add: matched_burst_def)
  have "length (NORMAL_TRAINING_SEQ_3_BEGIN @ replicate 488 0) = 500"
    by (simp add: NORMAL_TRAINING_SEQ_3_BEGIN_def)
  then show "patternAtPositionScore matched_burst NORMAL_TRAINING_SEQ_3_END 500 = 0"
    using score_at_pattern [of "NORMAL_TRAINING_SEQ_3_BEGIN @ replicate 488 0"
        NORMAL_TRAINING_SEQ_3_END "[]"]
    by (simp add: matched_burst_def)
qed


lemma rx_symbols_append:
  "rx_symbols lower (xs @ ys) d = rx_symbols lower ys (rx_symbols lower xs d)"
  by (induction xs arbitrary: d) simp_all

lemma rx_symbols_filling:
  "length (m_frame d) + length symbs < 510 \<Longrightarrow>
   rx_symbols lower symbs d
     = d\<lparr>m_frame := m_frame d @ symbs, rx_count := rx_count d + length symbs\<rparr>"
  by (induction symbs arbitrary: d) (simp_all add: rxSymbol_filling)

lemma rxSymbol_frame_matched:
  "m_frame (rxSymbol_frame lower True d) = []
   \<and> m_bIsSynchronized (rxSymbol_frame lower True d)
   \<and> m_syncBitCounter (rxSymbol_frame lower True d) = 25499
   \<and> rx_count (rxSymbol_frame lower True d) = rx_count d
   \<and> processFrame_at (rxSymbol_frame lower True d) = processFrame_at d @ [rx_count d]"
  by (simp add: rxSymbol_frame_def Let_def resetSynchronizer_def processFrame_fields
        decrement64_def FRAME_LEN_def)

lemma matched_burst_length: "length matched_burst = 510"
  by (simp add: matched_burst_def NORMAL_TRAINING_SEQ_3_BEGIN_def NORMAL_TRAINING_SEQ_3_END_def)

lemma rxSymbol_matched:
  "m_frame d @ [symb] = matched_burst \<Longrightarrow>
   rxSymbol lower symb d
     = (True, rxSymbol_frame lower True (d\<lparr>m_frame := matched_burst, rx_count := rx_count d + 1\<rparr>))"
  by (simp add: rxSymbol_def Let_def FRAME_LEN_def matched_burst_scores matched_burst_length)

lemma matched_burst_split:
  "matched_burst = butlast matched_burst @ [0]"
  by (simp add: matched_burst_def NORMAL_TRAINING_SEQ_3_END_def butlast_append)

lemma after_matched_burst:
  "m_frame (rx_symbols lower matched_burst (initial_decoder b)) = []
   \<and> m_bIsSynchronized (rx_symbols lower matched_burst (initial_decoder b))
   \<and> m_syncBitCounter (rx_symbols lower matched_burst (initial_decoder b)) = 25499
   \<and> rx_count (rx_symbols lower matched_burst (initial_decoder b)) = 510
   \<and> processFrame_at (rx_symbols lower matched_burst (initial_decoder b)) = [510]"
proof -
  let ?d509 = "(initial_decoder b)\<lparr>m_frame := butlast matched_burst, rx_count := 509\<rparr>"
  have len: "length (butlast matched_burst) = 509" by (simp add: matched_burst_length)
  have "rx_symbols lower (butlast matched_burst) (initial_decoder b) = ?d509"
    using rx_symbols_filling [of "initial_decoder b" "butlast matched_burst" lower] len
    by (simp add: initial_decoder_def)
  then have e: "rx_symbols lower (butlast matched_burst @ [0]) (initial_decoder b)
      = snd (rxSymbol lower 0 ?d509)"
    by (simp only: rx_symbols_append rx_symbols.simps)
  have "m_frame ?d509 @ [0] = matched_burst"
    using matched_burst_split by simp
  from rxSymbol_matched [OF this]
  have "snd (rxSymbol lower 0 ?d509)
      = rxSymbol_frame lower True (?d509\<lparr>m_frame := matched_burst, rx_count := 510\<rparr>)"
    by simp
  with e have "rx_symbols lower matched_burst (initial_decoder b)
      = rxSymbol_frame lower True (?d509\<lparr>m_frame := matched_burst, rx_count := 510\<rparr>)"
    using matched_burst_split by simp
  then show ?thesis
    by (simp add: rxSymbol_frame_matched initial_decoder_def)
qed

lemma zero_frame_nth:
  "set f \<subseteq> {0::symbol} \<Longrightarrow> i < length f \<Longrightarrow> f ! i = 0"
  using nth_mem by fastforce

lemma rxSymbol_zero_unmatched:
  assumes "set (m_frame d) \<subseteq> {0}"
  shows "\<not> fst (rxSymbol lower 0 d) \<and> set (m_frame (snd (rxSymbol lower 0 d))) \<subseteq> {0}"
proof (cases "length (m_frame d) + 1 < 510")
  case True
  then show ?thesis using assms by (simp add: rxSymbol_filling)
next
  case False
  have z: "set (m_frame d @ [0]) \<subseteq> {0}" using assms by simp
  have "patternAtPositionScore (m_frame d @ [0]) NORMAL_TRAINING_SEQ_3_BEGIN 0 = 6"
  proof -
    have "idx < length NORMAL_TRAINING_SEQ_3_BEGIN \<Longrightarrow> (m_frame d @ [0]) ! (0 + idx) = 0" for idx
      using False by (intro zero_frame_nth [OF z]) (simp add: NORMAL_TRAINING_SEQ_3_BEGIN_def)
    from score_on_zeros [of NORMAL_TRAINING_SEQ_3_BEGIN "m_frame d @ [0]" 0, OF this]
    show ?thesis by (simp only: begin_weight)
  qed
  then have nf: "\<not> fst (rxSymbol lower 0 d)"
    using False by (simp add: rxSymbol_def Let_def FRAME_LEN_def)
  have "m_frame (rxSymbol_frame lower False d') = [] \<or>
        m_frame (rxSymbol_frame lower False d') = tl (m_frame d')" for d'
    by (simp add: rxSymbol_frame_def Let_def processFrame_fields)
  then have sub: "set (m_frame (rxSymbol_frame lower False d')) \<subseteq> set (m_frame d')" for d'
    by (metis empty_set empty_subsetI list.set_sel(2) subsetI tl_Nil)
  have "snd (rxSymbol lower 0 d)
      = rxSymbol_frame lower False (d\<lparr>m_frame := m_frame d @ [0], rx_count := rx_count d + 1\<rparr>)"
    using rxSymbol_full [OF False, of lower 0] nf by simp
  then have "set (m_frame (snd (rxSymbol lower 0 d))) \<subseteq> set (m_frame d @ [0])"
    using sub [of "d\<lparr>m_frame := m_frame d @ [0], rx_count := rx_count d + 1\<rparr>"] by simp
  then show ?thesis using nf z by blast
qed

lemma zeros_never_match:
  "set (m_frame d) \<subseteq> {0} \<Longrightarrow> \<not> frame_found lower (replicate n 0) d"
  by (induction n arbitrary: d) (simp_all add: rxSymbol_zero_unmatched)


theorem grace_window_processFrame_calls_witness:
  "processFrame_at (rx_symbols no_lower_mac (replicate 510 0)
      (rx_symbols no_lower_mac matched_burst (initial_decoder True))) = [510]
   \<and> processFrame_at (rx_symbols no_lower_mac (replicate 1019 0)
      (rx_symbols no_lower_mac matched_burst (initial_decoder True))) = [510, 1529]
   \<and> processFrame_at (rx_symbols no_lower_mac (replicate (49 * 1019 + 1018) 0)
      (rx_symbols no_lower_mac matched_burst (initial_decoder True)))
       = 510 # map (\<lambda>k. 510 + 1019 * k) [1..<50]
   \<and> m_bIsSynchronized (rx_symbols no_lower_mac (replicate (49 * 1019 + 1017) 0)
      (rx_symbols no_lower_mac matched_burst (initial_decoder True)))
   \<and> \<not> m_bIsSynchronized (rx_symbols no_lower_mac (replicate (49 * 1019 + 1018) 0)
      (rx_symbols no_lower_mac matched_burst (initial_decoder True)))"
proof -
  let ?d = "rx_symbols no_lower_mac matched_burst (initial_decoder True)"
  have d: "m_frame ?d = []" "m_bIsSynchronized ?d" "m_syncBitCounter ?d = FRAME_LEN * 50 - 1"
    "rx_count ?d = 510" "processFrame_at ?d = [510]"
    using after_matched_burst [of no_lower_mac True] by (simp_all add: FRAME_LEN_def)
  have z: "\<not> frame_found no_lower_mac (replicate n 0) ?d" for n
    by (rule zeros_never_match) (simp add: d)
  note g = grace_window_processFrame_calls [OF d(1) d(2) d(3) z]
  have "Suc 49 = 50" by simp
  then show ?thesis
    using g [of 510] g [of 1019] g [of "49 * 1019 + 1018"] g [of "49 * 1019 + 1017"]
    by (simp add: d)
qed


end
